theory Spec2Isabelle
  imports Complex_Main
begin

section \<open>AetherChain: ledger entities\<close>

text \<open>
  Go's \<^verbatim>\<open>int\<close> and \<^verbatim>\<open>int64\<close> are modelled by \<open>int\<close>: the only arithmetic on them is the
  nonce counter of the miner (bounded by \<open>MaxNonce\<close>) and comparisons with \<^verbatim>\<open>len\<close>, so no
  operation can wrap. A \<^verbatim>\<open>float64\<close> amount is modelled by the real number it denotes;
  rounding, infinities and NaN are outside the model. Go strings are byte sequences, as
  \<open>string\<close> is here. Pointers to transactions and blocks held in slices are taken to be
  non-nil; a block handed to the chain may be nil and is an \<open>option\<close>.
  A runtime panic is the result \<open>None\<close> of a function whose type ends in \<open>option\<close>.
  Record fields share one name space, so the fields of each struct carry a prefix
  (\<open>tx_\<close>, \<open>blk_\<close>, \<open>bc_\<close>, \<open>pow_\<close>, ...), and a method that two types define is named
  after its receiver (\<open>Transaction_IsValid\<close>, \<open>Block_CalculateHash\<close>).
\<close>

type_synonym float64 = real

record Transaction =
  tx_Version :: int
  tx_Hash :: string
  tx_From :: string
  tx_To :: string
  tx_Amount :: float64
  tx_Fee :: float64
  tx_Nonce :: int
  tx_Timestamp :: int
  tx_Signature :: string
  tx_PublicKey :: string
  tx_Status :: string
  tx_BlockHash :: string

text \<open>The anonymous struct \<^verbatim>\<open>hashData\<close> of \<^verbatim>\<open>Transaction.CalculateHash\<close>.\<close>

record TxHashData =
  thd_Version :: int
  thd_From :: string
  thd_To :: string
  thd_Amount :: float64
  thd_Fee :: float64
  thd_Nonce :: int
  thd_Timestamp :: int

record Block =
  blk_Version :: int
  blk_Index :: int
  blk_Timestamp :: int
  blk_PrevHash :: string
  blk_MerkleRoot :: string
  blk_Transactions :: "Transaction list"
  blk_Nonce :: int
  blk_Difficulty :: int
  blk_Hash :: string
  blk_Miner :: string
  blk_BlockReward :: float64

text \<open>The anonymous struct \<^verbatim>\<open>hashData\<close> of \<^verbatim>\<open>Block.CalculateHash\<close>.\<close>

record BlockHashData =
  bhd_Version :: int
  bhd_Index :: int
  bhd_Timestamp :: int
  bhd_PrevHash :: string
  bhd_MerkleRoot :: string
  bhd_Nonce :: int
  bhd_Difficulty :: int

text \<open>
  The functions of Go's standard library that the ledger calls are parameters of the
  model: \<open>sha256_hex s\<close> is \<^verbatim>\<open>hex.EncodeToString(sha256.Sum256([]byte(s)))\<close>, and the two
  \<open>json_\<close> fields are \<^verbatim>\<open>json.Marshal\<close> on the two anonymous structs (its error is
  discarded by the source). Every theorem below holds for every such triple.
\<close>

record stdlib =
  sha256_hex :: "string \<Rightarrow> string"
  json_TxHashData :: "TxHashData \<Rightarrow> string"
  json_BlockHashData :: "BlockHashData \<Rightarrow> string"

subsection \<open>Transaction\<close>

definition Transaction_CalculateHash :: "stdlib \<Rightarrow> Transaction \<Rightarrow> string" where
  "Transaction_CalculateHash lib tx =
     (let hashData = \<lparr> thd_Version = tx_Version tx, thd_From = tx_From tx, thd_To = tx_To tx,
                        thd_Amount = tx_Amount tx, thd_Fee = tx_Fee tx, thd_Nonce = tx_Nonce tx,
                        thd_Timestamp = tx_Timestamp tx \<rparr>;
          data = json_TxHashData lib hashData
      in sha256_hex lib data)"

definition NewTransaction ::
  "stdlib \<Rightarrow> string \<Rightarrow> string \<Rightarrow> float64 \<Rightarrow> float64 \<Rightarrow> int \<Rightarrow> int \<Rightarrow> Transaction" where
  "NewTransaction lib from to amount fee nonce now =
     (let tx = \<lparr> tx_Version = 1, tx_Hash = [], tx_From = from, tx_To = to, tx_Amount = amount,
                  tx_Fee = fee, tx_Nonce = nonce, tx_Timestamp = now, tx_Signature = [],
                  tx_PublicKey = [], tx_Status = ''pending'', tx_BlockHash = [] \<rparr>
      in tx\<lparr> tx_Hash := Transaction_CalculateHash lib tx \<rparr>)"

definition Sign :: "stdlib \<Rightarrow> string \<Rightarrow> Transaction \<Rightarrow> Transaction" where
  "Sign lib privateKey tx = tx\<lparr> tx_Signature := sha256_hex lib (tx_Hash tx @ privateKey) \<rparr>"

definition VerifySignature :: "stdlib \<Rightarrow> Transaction \<Rightarrow> bool" where
  "VerifySignature lib tx =
     (if tx_Signature tx = [] then False
      else tx_Signature tx = sha256_hex lib (tx_Hash tx @ tx_PublicKey tx))"

definition Transaction_IsValid :: "stdlib \<Rightarrow> Transaction \<Rightarrow> bool" where
  "Transaction_IsValid lib tx =
     (if tx_Amount tx \<le> 0 then False
      else if tx_From tx = tx_To tx then False
      else if \<not> VerifySignature lib tx then False
      else True)"

subsection \<open>Block\<close>

definition Block_CalculateHash :: "stdlib \<Rightarrow> Block \<Rightarrow> string" where
  "Block_CalculateHash lib b =
     (let hashData = \<lparr> bhd_Version = blk_Version b, bhd_Index = blk_Index b,
                        bhd_Timestamp = blk_Timestamp b, bhd_PrevHash = blk_PrevHash b,
                        bhd_MerkleRoot = blk_MerkleRoot b, bhd_Nonce = blk_Nonce b,
                        bhd_Difficulty = blk_Difficulty b \<rparr>;
          data = json_BlockHashData lib hashData
      in sha256_hex lib data)"

definition CalculateMerkleRoot :: "stdlib \<Rightarrow> Block \<Rightarrow> string" where
  "CalculateMerkleRoot lib b =
     (if length (blk_Transactions b) = 0 then []
      else sha256_hex lib (concat (map tx_Hash (blk_Transactions b))))"

definition NewBlock :: "stdlib \<Rightarrow> int \<Rightarrow> Transaction list \<Rightarrow> string \<Rightarrow> int \<Rightarrow> int \<Rightarrow> Block" where
  "NewBlock lib index transactions prevHash difficulty now =
     (let block = \<lparr> blk_Version = 1, blk_Index = index, blk_Timestamp = now,
                     blk_PrevHash = prevHash, blk_MerkleRoot = [],
                     blk_Transactions = transactions, blk_Nonce = 0,
                     blk_Difficulty = difficulty, blk_Hash = [], blk_Miner = [],
                     blk_BlockReward = 50 \<rparr>
      in block\<lparr> blk_MerkleRoot := CalculateMerkleRoot lib block \<rparr>)"

section \<open>Proof of work\<close>

record ProofOfWork =
  pow_Block :: Block
  pow_Difficulty :: int

definition NewProofOfWork :: "Block \<Rightarrow> int \<Rightarrow> ProofOfWork" where
  "NewProofOfWork block difficulty = \<lparr> pow_Block = block, pow_Difficulty = difficulty \<rparr>"

definition MaxNonce :: int where
  "MaxNonce = 100000000"

text \<open>
  \<^verbatim>\<open>len(hash) >= pow.Difficulty && hash[:pow.Difficulty] == prefix\<close>: the conjunction is
  short-circuit, and the slice expression panics on a negative bound, which every
  negative difficulty reaches. The prefix loop builds \<open>Difficulty\<close> zeros (none when the
  difficulty is not positive).
\<close>

definition IsValidHash :: "ProofOfWork \<Rightarrow> string \<Rightarrow> bool option" where
  "IsValidHash pow hash =
     (let prefix = replicate (nat (pow_Difficulty pow)) (CHR ''0'')
      in if int (length hash) \<ge> pow_Difficulty pow
         then (if pow_Difficulty pow < 0 then None
               else Some (take (nat (pow_Difficulty pow)) hash = prefix))
         else Some False)"

definition Validate :: "stdlib \<Rightarrow> ProofOfWork \<Rightarrow> bool option" where
  "Validate lib pow = (let hash = Block_CalculateHash lib (pow_Block pow) in IsValidHash pow hash)"

text \<open>
  \<^verbatim>\<open>Mine\<close> returns \<^verbatim>\<open>(nonce, hash, err)\<close> and writes every nonce it tries into the block
  its receiver points to; the block as left behind is returned with the result.
\<close>

function Mine_loop ::
  "stdlib \<Rightarrow> ProofOfWork \<Rightarrow> int \<Rightarrow> ((int \<times> string \<times> string option) \<times> ProofOfWork) option" where
  "Mine_loop lib pow nonce =
     (if nonce < MaxNonce then
        (let pow1 = pow\<lparr> pow_Block := (pow_Block pow)\<lparr> blk_Nonce := nonce \<rparr> \<rparr>;
             hash = Block_CalculateHash lib (pow_Block pow1)
         in case IsValidHash pow1 hash of
              None \<Rightarrow> None
            | Some True \<Rightarrow> Some ((nonce, hash, None), pow1)
            | Some False \<Rightarrow> Mine_loop lib pow1 (nonce + 1))
      else Some ((0, [], Some ''failed to mine block after 100000000 attempts''), pow))"
  by pat_completeness auto
termination
  by (relation "measure (\<lambda>(lib, pow, nonce). nat (MaxNonce - nonce))") auto

declare Mine_loop.simps [simp del]

definition Mine ::
  "stdlib \<Rightarrow> ProofOfWork \<Rightarrow> ((int \<times> string \<times> string option) \<times> ProofOfWork) option" where
  "Mine lib pow = Mine_loop lib pow 0"

section \<open>Chain state machine\<close>

text \<open>
  \<^verbatim>\<open>Accounts\<close> is a Go map: a lookup of an absent key yields the zero value and does not
  insert it, an assignment inserts the key. The mutex only serialises callers and has no
  counterpart in a sequential model.
\<close>

record Blockchain =
  bc_Chain :: "Block list"
  bc_PendingTx :: "Transaction list"
  bc_Difficulty :: int
  bc_BlockReward :: float64
  bc_Accounts :: "string \<rightharpoonup> float64"
  bc_TransactionPool :: "Transaction list"

definition account_get :: "(string \<rightharpoonup> float64) \<Rightarrow> string \<Rightarrow> float64" where
  "account_get accounts address = (case accounts address of None \<Rightarrow> 0 | Some v \<Rightarrow> v)"

definition genesisTransactions :: "Transaction list" where
  "genesisTransactions =
     [\<lparr> tx_Version = 1, tx_Hash = ''genesis_transaction'', tx_From = ''0'',
        tx_To = ''genesis_address'', tx_Amount = 1000000, tx_Fee = 0, tx_Nonce = 0,
        tx_Timestamp = 1704067200, tx_Signature = [], tx_PublicKey = [],
        tx_Status = ''confirmed'', tx_BlockHash = [] \<rparr>]"

definition CreateGenesisBlock :: "stdlib \<Rightarrow> int \<Rightarrow> Blockchain \<Rightarrow> Blockchain" where
  "CreateGenesisBlock lib now bc =
     (let genesisBlock0 = NewBlock lib 0 genesisTransactions ''0'' (bc_Difficulty bc) now;
          genesisBlock1 = genesisBlock0\<lparr> blk_Hash := Block_CalculateHash lib genesisBlock0 \<rparr>;
          genesisBlock = genesisBlock1\<lparr> blk_Miner := ''genesis_miner'' \<rparr>
      in bc\<lparr> bc_Chain := [genesisBlock],
             bc_Accounts := (bc_Accounts bc)(''genesis_address'' \<mapsto> 1000000) \<rparr>)"

definition NewBlockchain :: "stdlib \<Rightarrow> int \<Rightarrow> float64 \<Rightarrow> int \<Rightarrow> Blockchain" where
  "NewBlockchain lib difficulty blockReward now =
     CreateGenesisBlock lib now
       \<lparr> bc_Chain = [], bc_PendingTx = [], bc_Difficulty = difficulty,
         bc_BlockReward = blockReward, bc_Accounts = Map.empty, bc_TransactionPool = [] \<rparr>"

text \<open>
  \<^verbatim>\<open>IsValidBlock\<close>: indexing \<^verbatim>\<open>bc.Chain[len(bc.Chain)-1]\<close> panics on an empty chain, which
  a block of index 0 reaches.
\<close>

definition IsValidBlock :: "stdlib \<Rightarrow> Blockchain \<Rightarrow> Block option \<Rightarrow> bool option" where
  "IsValidBlock lib bc blk =
     (case blk of
        None \<Rightarrow> Some False
      | Some block \<Rightarrow>
          if blk_Index block \<noteq> int (length (bc_Chain bc)) then Some False
          else if bc_Chain bc = [] then None
          else (let lastBlock = last (bc_Chain bc)
                in if blk_PrevHash block \<noteq> blk_Hash lastBlock then Some False
                   else (case Validate lib (NewProofOfWork block (bc_Difficulty bc)) of
                           None \<Rightarrow> None
                         | Some False \<Rightarrow> Some False
                         | Some True \<Rightarrow>
                             Some (list_all (Transaction_IsValid lib) (blk_Transactions block)))))"

definition processTransaction :: "Blockchain \<Rightarrow> Transaction \<Rightarrow> Blockchain" where
  "processTransaction bc tx =
     (let accounts1 = (bc_Accounts bc)
            (tx_From tx \<mapsto> account_get (bc_Accounts bc) (tx_From tx) - (tx_Amount tx + tx_Fee tx));
          accounts2 = accounts1(tx_To tx \<mapsto> account_get accounts1 (tx_To tx) + tx_Amount tx)
      in bc\<lparr> bc_Accounts := accounts2 \<rparr>)"

definition removeProcessedTransactions :: "Blockchain \<Rightarrow> Transaction list \<Rightarrow> Blockchain" where
  "removeProcessedTransactions bc processed =
     (let processedMap = set (map tx_Hash processed);
          remaining = filter (\<lambda>tx. tx_Hash tx \<notin> processedMap) (bc_TransactionPool bc)
      in bc\<lparr> bc_TransactionPool := remaining \<rparr>)"

text \<open>\<^verbatim>\<open>AddBlock\<close> returns Go's \<^verbatim>\<open>error\<close> (\<open>None\<close> is \<^verbatim>\<open>nil\<close>) and the state it leaves.\<close>

definition AddBlock ::
  "stdlib \<Rightarrow> Block option \<Rightarrow> Blockchain \<Rightarrow> (string option \<times> Blockchain) option" where
  "AddBlock lib blk bc =
     (case IsValidBlock lib bc blk of
        None \<Rightarrow> None
      | Some False \<Rightarrow> Some (Some ''invalid block'', bc)
      | Some True \<Rightarrow>
          (case blk of
             None \<Rightarrow> None
           | Some block \<Rightarrow>
               let bc1 = foldl processTransaction bc (blk_Transactions block);
                   bc2 = bc1\<lparr> bc_Accounts := (bc_Accounts bc1)
                            (blk_Miner block \<mapsto>
                               account_get (bc_Accounts bc1) (blk_Miner block) + blk_BlockReward block) \<rparr>;
                   bc3 = bc2\<lparr> bc_Chain := bc_Chain bc2 @ [block] \<rparr>;
                   bc4 = removeProcessedTransactions bc3 (blk_Transactions block)
               in Some (None, bc4)))"

definition getTransactionsForBlock :: "Blockchain \<Rightarrow> Transaction list" where
  "getTransactionsForBlock bc =
     (let maxTransactions = 100
      in if length (bc_TransactionPool bc) < maxTransactions then bc_TransactionPool bc
         else take maxTransactions (bc_TransactionPool bc))"

definition CreateNewBlock ::
  "stdlib \<Rightarrow> string \<Rightarrow> int \<Rightarrow> Blockchain \<Rightarrow> (Block option \<times> string option) option" where
  "CreateNewBlock lib miner now bc =
     (if length (bc_Chain bc) = 0 then Some (None, Some ''blockchain not initialized'')
      else
        let lastBlock = last (bc_Chain bc);
            transactions = getTransactionsForBlock bc;
            newBlock0 = NewBlock lib (int (length (bc_Chain bc))) transactions
                          (blk_Hash lastBlock) (bc_Difficulty bc) now;
            newBlock = newBlock0\<lparr> blk_Miner := miner \<rparr>
        in case Mine lib (NewProofOfWork newBlock (bc_Difficulty bc)) of
             None \<Rightarrow> None
           | Some ((nonce, hash, err), pow) \<Rightarrow>
               (case err of
                  Some e \<Rightarrow> Some (None, Some e)
                | None \<Rightarrow> Some (Some ((pow_Block pow)\<lparr> blk_Nonce := nonce, blk_Hash := hash \<rparr>), None)))"

definition AddTransaction ::
  "stdlib \<Rightarrow> Transaction \<Rightarrow> Blockchain \<Rightarrow> string option \<times> Blockchain" where
  "AddTransaction lib tx bc =
     (if \<not> Transaction_IsValid lib tx then (Some ''invalid transaction'', bc)
      else if account_get (bc_Accounts bc) (tx_From tx) < tx_Amount tx + tx_Fee tx
           then (Some ''insufficient balance'', bc)
      else (None, bc\<lparr> bc_TransactionPool := bc_TransactionPool bc @ [tx] \<rparr>))"

text \<open>
  \<^verbatim>\<open>GetBalance\<close> has a pointer receiver; the state after the call is returned next to the
  balance.
\<close>

definition GetBalance :: "Blockchain \<Rightarrow> string \<Rightarrow> float64 \<times> Blockchain" where
  "GetBalance bc address = (account_get (bc_Accounts bc) address, bc)"

definition GetLastBlock :: "Blockchain \<Rightarrow> Block option" where
  "GetLastBlock bc = (if length (bc_Chain bc) = 0 then None else Some (last (bc_Chain bc)))"

text \<open>
  \<^verbatim>\<open>IsChainValid\<close>: the loop \<^verbatim>\<open>for i := 1; i < len(bc.Chain); i++\<close>, with the three checks
  in the order of the source.
\<close>

function IsChainValid_loop :: "stdlib \<Rightarrow> Blockchain \<Rightarrow> nat \<Rightarrow> bool option" where
  "IsChainValid_loop lib bc i =
     (if i < length (bc_Chain bc) then
        (let currentBlock = bc_Chain bc ! i;
             previousBlock = bc_Chain bc ! (i - 1)
         in if blk_Hash currentBlock \<noteq> Block_CalculateHash lib currentBlock then Some False
            else if blk_PrevHash currentBlock \<noteq> blk_Hash previousBlock then Some False
            else case Validate lib (NewProofOfWork currentBlock (bc_Difficulty bc)) of
                   None \<Rightarrow> None
                 | Some False \<Rightarrow> Some False
                 | Some True \<Rightarrow> IsChainValid_loop lib bc (i + 1))
      else Some True)"
  by pat_completeness auto
termination
  by (relation "measure (\<lambda>(lib, bc, i). length (bc_Chain bc) - i)") auto

declare IsChainValid_loop.simps [simp del]

definition IsChainValid :: "stdlib \<Rightarrow> Blockchain \<Rightarrow> bool option" where
  "IsChainValid lib bc = IsChainValid_loop lib bc 1"

text \<open>\<^verbatim>\<open>StateManager.calculateTotalBalance\<close>: the sum over all entries of the map.\<close>

definition calculateTotalBalance :: "Blockchain \<Rightarrow> float64" where
  "calculateTotalBalance bc = (\<Sum>a \<in> dom (bc_Accounts bc). the (bc_Accounts bc a))"

section \<open>Validator\<close>

definition isDuplicateTransaction :: "Blockchain \<Rightarrow> Transaction \<Rightarrow> bool" where
  "isDuplicateTransaction bc tx = list_ex (\<lambda>existingTx. tx_Hash existingTx = tx_Hash tx) (bc_TransactionPool bc)"

definition ValidateTransaction :: "stdlib \<Rightarrow> Blockchain \<Rightarrow> Transaction \<Rightarrow> bool" where
  "ValidateTransaction lib bc tx =
     (if \<not> Transaction_IsValid lib tx then False
      else let senderBalance = fst (GetBalance bc (tx_From tx))
           in if senderBalance < tx_Amount tx + tx_Fee tx then False
              else if isDuplicateTransaction bc tx then False
              else True)"

section \<open>Peer synchronisation\<close>

text \<open>
  A peer's connection is identified with the peer: \<^verbatim>\<open>peer.Conn.Write(message)\<close> is
  recorded as the pair of the peer's id and the bytes written. The registry \<^verbatim>\<open>peers\<close> is a
  Go map keyed by peer id; its entries are listed here in the order in which the runtime
  happens to iterate over them. Printing is not modelled.
\<close>

record Peer =
  peer_ID :: string
  peer_Address :: string
  peer_Connected :: bool
  peer_LastSeen :: int

record Node =
  node_blockchain :: Blockchain
  node_peers :: "(string \<times> Peer) list"
  node_isRunning :: bool

definition BroadcastMessage :: "Node \<Rightarrow> string \<Rightarrow> (string \<times> string) list" where
  "BroadcastMessage n message =
     map (\<lambda>(key, peer). (peer_ID peer, message))
       (filter (\<lambda>(key, peer). peer_Connected peer) (node_peers n))"

text \<open>
  \<^verbatim>\<open>Node.handleMessage\<close> is what the receive loop of a peer connection hands every
  message to. It returns the node, which it does not touch, and the one write it makes.
  \<^verbatim>\<open>MessageHandler.handleNewBlock\<close> is called from nowhere in the node and passes a
  variable \<^verbatim>\<open>rawData\<close> that is not declared in its scope to \<^verbatim>\<open>BroadcastMessage\<close>, so the
  source gives it no behaviour to model.
\<close>

definition handleMessage :: "Node \<Rightarrow> Peer \<Rightarrow> string \<Rightarrow> Node \<times> (string \<times> string) list" where
  "handleMessage n peer data =
     (let response = ''Echo: '' @ data
      in (n, [(peer_ID peer, response)]))"

section \<open>Reachable chain states\<close>

text \<open>
  The states a node's ledger can be in: the one \<^verbatim>\<open>NewBlockchain\<close> builds, and every state
  a returning call of \<^verbatim>\<open>AddBlock\<close> or \<^verbatim>\<open>AddTransaction\<close> leaves, whatever that call
  answered.
\<close>

inductive reachable :: "stdlib \<Rightarrow> Blockchain \<Rightarrow> bool" for lib :: stdlib where
  reachable_new: "reachable lib (NewBlockchain lib difficulty blockReward now)"
| reachable_AddBlock:
    "reachable lib bc \<Longrightarrow> AddBlock lib blk bc = Some (err, bc') \<Longrightarrow> reachable lib bc'"
| reachable_AddTransaction:
    "reachable lib bc \<Longrightarrow> AddTransaction lib tx bc = (err, bc') \<Longrightarrow> reachable lib bc'"

definition appears_in_block :: "string \<Rightarrow> Block \<Rightarrow> bool" where
  "appears_in_block a b =
     (a = blk_Miner b \<or> list_ex (\<lambda>tx. a = tx_From tx \<or> a = tx_To tx) (blk_Transactions b))"

definition appears_in_chain :: "string \<Rightarrow> Block list \<Rightarrow> bool" where
  "appears_in_chain a chain = list_ex (appears_in_block a) chain"

section \<open>A concrete instance of the library parameters\<close>

text \<open>
  To run the model on concrete inputs the three library functions need values. The
  instance below is a small deterministic stand-in: a 16-bit checksum written out as 64
  hexadecimal digits in place of SHA-256, and a comma-separated rendering of the fields in
  place of JSON. No theorem about the ledger depends on it; it instantiates the theorems,
  which hold for every library, at concrete inputs.
\<close>

definition hex_digit :: "int \<Rightarrow> char" where
  "hex_digit n = ''0123456789abcdef'' ! nat (n mod 16)"

function dec_digits :: "int \<Rightarrow> string" where
  "dec_digits n =
     (if n < 10 then [hex_digit n] else dec_digits (n div 10) @ [hex_digit (n mod 10)])"
  by pat_completeness auto
termination
  by (relation "measure nat") auto

declare dec_digits.simps [simp del]

definition dec_int :: "int \<Rightarrow> string" where
  "dec_int i = (if i < 0 then CHR ''-'' # dec_digits (- i) else dec_digits i)"

definition checksum16 :: "string \<Rightarrow> int" where
  "checksum16 s = foldl (\<lambda>a c. (a * 33 + of_char c) mod 65536) 5381 s"

definition sample_sha256_hex :: "string \<Rightarrow> string" where
  "sample_sha256_hex s =
     (let d = checksum16 s;
          w = [hex_digit (d div 4096), hex_digit (d div 256), hex_digit (d div 16), hex_digit d];
          w4 = w @ w @ w @ w
      in w4 @ w4 @ w4 @ w4)"

definition sample_json_TxHashData :: "TxHashData \<Rightarrow> string" where
  "sample_json_TxHashData h =
     dec_int (thd_Version h) @ '','' @ thd_From h @ '','' @ thd_To h @ '','' @
     dec_int (floor (thd_Amount h)) @ '','' @ dec_int (floor (thd_Fee h)) @ '','' @
     dec_int (thd_Nonce h) @ '','' @ dec_int (thd_Timestamp h)"

definition sample_json_BlockHashData :: "BlockHashData \<Rightarrow> string" where
  "sample_json_BlockHashData h =
     dec_int (bhd_Version h) @ '','' @ dec_int (bhd_Index h) @ '','' @
     dec_int (bhd_Timestamp h) @ '','' @ bhd_PrevHash h @ '','' @ bhd_MerkleRoot h @ '','' @
     dec_int (bhd_Nonce h) @ '','' @ dec_int (bhd_Difficulty h)"

definition sample_lib :: stdlib where
  "sample_lib = \<lparr> sha256_hex = sample_sha256_hex, json_TxHashData = sample_json_TxHashData,
                  json_BlockHashData = sample_json_BlockHashData \<rparr>"

section \<open>Notions the properties are stated with\<close>

text \<open>
  What a list of transactions takes from and gives to an address, in the words of the
  specification: each sender is debited amount plus fee, each recipient is credited the
  amount.
\<close>

definition total_debit :: "Transaction list \<Rightarrow> string \<Rightarrow> float64" where
  "total_debit txs a = sum_list (map (\<lambda>tx. tx_Amount tx + tx_Fee tx) (filter (\<lambda>tx. tx_From tx = a) txs))"

definition total_credit :: "Transaction list \<Rightarrow> string \<Rightarrow> float64" where
  "total_credit txs a = sum_list (map tx_Amount (filter (\<lambda>tx. tx_To tx = a) txs))"

text \<open>The block hash the miner computes when it tries a nonce.\<close>

definition hash_at_nonce :: "stdlib \<Rightarrow> ProofOfWork \<Rightarrow> int \<Rightarrow> string" where
  "hash_at_nonce lib pow nonce = Block_CalculateHash lib ((pow_Block pow)\<lparr> blk_Nonce := nonce \<rparr>)"

text \<open>
  The three checks \<^verbatim>\<open>IsChainValid\<close> makes on the block at position \<open>j\<close>: the stored hash
  is the recomputed one, the previous hash is the stored hash of the predecessor, and the
  proof of work holds at the chain's difficulty.
\<close>

definition block_checks :: "stdlib \<Rightarrow> Blockchain \<Rightarrow> nat \<Rightarrow> bool" where
  "block_checks lib bc j =
     (blk_Hash (bc_Chain bc ! j) = Block_CalculateHash lib (bc_Chain bc ! j)
      \<and> blk_PrevHash (bc_Chain bc ! j) = blk_Hash (bc_Chain bc ! (j - 1))
      \<and> Validate lib (NewProofOfWork (bc_Chain bc ! j) (bc_Difficulty bc)) = Some True)"

text \<open>The chain with the previous-hash field of the block at position \<open>i\<close> overwritten.\<close>

definition alter_PrevHash :: "nat \<Rightarrow> string \<Rightarrow> Blockchain \<Rightarrow> Blockchain" where
  "alter_PrevHash i h bc =
     bc\<lparr> bc_Chain := (bc_Chain bc)[i := (bc_Chain bc ! i)\<lparr> blk_PrevHash := h \<rparr>] \<rparr>"

text \<open>
  The fees a list of transactions carries, and what a list of blocks adds to the money
  supply when each block mints its reward and its fees are credited to nobody.
\<close>

definition total_fees :: "Transaction list \<Rightarrow> float64" where
  "total_fees txs = sum_list (map tx_Fee txs)"

definition net_minted :: "Block list \<Rightarrow> float64" where
  "net_minted blocks =
     sum_list (map (\<lambda>b. blk_BlockReward b - total_fees (blk_Transactions b)) blocks)"

text \<open>
  The seven fields that make up the identity of a transaction, in the words of the
  specification: version, sender, recipient, amount, fee, nonce and timestamp.
\<close>

definition hash_fields :: "Transaction \<Rightarrow> TxHashData" where
  "hash_fields tx =
     \<lparr> thd_Version = tx_Version tx, thd_From = tx_From tx, thd_To = tx_To tx,
       thd_Amount = tx_Amount tx, thd_Fee = tx_Fee tx, thd_Nonce = tx_Nonce tx,
       thd_Timestamp = tx_Timestamp tx \<rparr>"

section \<open>Concrete inputs\<close>

text \<open>
  A transaction signed the way the source's own \<^verbatim>\<open>Sign\<close> and \<^verbatim>\<open>VerifySignature\<close> agree
  on: the public key field holds the key that \<^verbatim>\<open>Sign\<close> is given.
\<close>

definition signed_transaction ::
  "stdlib \<Rightarrow> string \<Rightarrow> string \<Rightarrow> float64 \<Rightarrow> float64 \<Rightarrow> int \<Rightarrow> int \<Rightarrow> string \<Rightarrow> Transaction" where
  "signed_transaction lib from to amount fee nonce now key =
     Sign lib key ((NewTransaction lib from to amount fee nonce now)\<lparr> tx_PublicKey := key \<rparr>)"

definition sample_chain :: Blockchain where
  "sample_chain = NewBlockchain sample_lib 1 50 1704067200"

definition sample_tx :: Transaction where
  "sample_tx =
     signed_transaction sample_lib ''genesis_address'' ''alice'' 100 1 7 1704067250 ''key-g''"

text \<open>
  A candidate block on top of \<open>sample_chain\<close> holding \<open>sample_tx\<close>, as \<^verbatim>\<open>CreateNewBlock\<close>
  assembles it before mining, and the block after mining: nonce 3 is the first whose hash
  starts with a zero.
\<close>

definition sample_candidate :: Block where
  "sample_candidate =
     (NewBlock sample_lib 1 [sample_tx] (blk_Hash (last (bc_Chain sample_chain))) 1 1704067310)
       \<lparr> blk_Miner := ''miner'' \<rparr>"

definition sample_block :: Block where
  "sample_block =
     sample_candidate\<lparr> blk_Nonce := 3,
       blk_Hash := Block_CalculateHash sample_lib (sample_candidate\<lparr> blk_Nonce := 3 \<rparr>) \<rparr>"

text \<open>The sample chain after \<open>sample_tx\<close> has been admitted to its pool.\<close>

definition sample_chain_admitted :: Blockchain where
  "sample_chain_admitted = snd (AddTransaction sample_lib sample_tx sample_chain)"

text \<open>The sample chain after \<open>sample_block\<close> has been committed: two blocks.\<close>

definition sample_chain_committed :: Blockchain where
  "sample_chain_committed = snd (the (AddBlock sample_lib (Some sample_block) sample_chain_admitted))"

text \<open>
  Two transfers of 600000 each out of the genesis account, which holds 1000000, and the
  state in which a fresh chain has admitted both.
\<close>

definition double_spend_first :: "stdlib \<Rightarrow> Transaction" where
  "double_spend_first lib =
     signed_transaction lib ''genesis_address'' ''alice'' 600000 0 1 1704067250 ''key-g''"

definition double_spend_second :: "stdlib \<Rightarrow> Transaction" where
  "double_spend_second lib =
     signed_transaction lib ''genesis_address'' ''bob'' 600000 0 2 1704067251 ''key-g''"

definition double_spend_admitted :: "stdlib \<Rightarrow> int \<Rightarrow> float64 \<Rightarrow> int \<Rightarrow> Blockchain" where
  "double_spend_admitted lib difficulty blockReward now =
     snd (AddTransaction lib (double_spend_second lib)
       (snd (AddTransaction lib (double_spend_first lib)
          (NewBlockchain lib difficulty blockReward now))))"

text \<open>The block the sample node mines from the pool holding both transfers.\<close>

definition double_spend_block :: Block where
  "double_spend_block =
     the (fst (the (CreateNewBlock sample_lib ''miner'' 1704067311
                      (double_spend_admitted sample_lib 1 50 1704067200))))"

text \<open>
  A node on the sample chain with three registered peers, the third of them disconnected.
  The first peer is the one a message arrives from.
\<close>

definition sample_sender :: Peer where
  "sample_sender = \<lparr> peer_ID = ''peer_1'', peer_Address = ''10.0.0.1:30303'',
                      peer_Connected = True, peer_LastSeen = 1704067300 \<rparr>"

definition sample_node :: Node where
  "sample_node =
     \<lparr> node_blockchain = sample_chain_admitted,
       node_peers =
         [(''peer_1'', sample_sender),
          (''peer_2'', \<lparr> peer_ID = ''peer_2'', peer_Address = ''10.0.0.2:30303'',
                         peer_Connected = True, peer_LastSeen = 1704067301 \<rparr>),
          (''peer_3'', \<lparr> peer_ID = ''peer_3'', peer_Address = ''10.0.0.3:30303'',
                         peer_Connected = False, peer_LastSeen = 1704067200 \<rparr>)],
       node_isRunning = True \<rparr>"

section \<open>Properties\<close>

subsection \<open>The state built by NewBlockchain\<close>

lemma NewBlockchain_Accounts:
  "bc_Accounts (NewBlockchain lib d r now) = [''genesis_address'' \<mapsto> 1000000]"
  by (simp add: NewBlockchain_def CreateGenesisBlock_def Let_def)

lemma NewBlockchain_TransactionPool: "bc_TransactionPool (NewBlockchain lib d r now) = []"
  by (simp add: NewBlockchain_def CreateGenesisBlock_def Let_def)

lemma NewBlockchain_Difficulty: "bc_Difficulty (NewBlockchain lib d r now) = d"
  by (simp add: NewBlockchain_def CreateGenesisBlock_def Let_def)

lemma NewBlockchain_Chain:
  "bc_Chain (NewBlockchain lib d r now) =
     [(NewBlock lib 0 genesisTransactions ''0'' d now)
        \<lparr> blk_Hash := Block_CalculateHash lib (NewBlock lib 0 genesisTransactions ''0'' d now),
          blk_Miner := ''genesis_miner'' \<rparr>]"
  by (simp add: NewBlockchain_def CreateGenesisBlock_def Let_def)

subsection \<open>The concrete inputs\<close>

lemma sample_tx_valid: "Transaction_IsValid sample_lib sample_tx"
  by code_simp

lemma sample_tx_funds:
  "\<not> account_get (bc_Accounts sample_chain) (tx_From sample_tx) < tx_Amount sample_tx + tx_Fee sample_tx"
  by (simp add: account_get_def sample_chain_def NewBlockchain_Accounts
      sample_tx_def signed_transaction_def Sign_def NewTransaction_def Let_def)

lemma sample_chain_pool: "bc_TransactionPool sample_chain = []"
  by (simp add: sample_chain_def NewBlockchain_TransactionPool)

subsection \<open>Admission of transactions\<close>

text \<open>
  Claim C6. \<^verbatim>\<open>AddTransaction\<close> rejects a transaction if and only if \<^verbatim>\<open>IsValid\<close> fails or the
  sender's committed balance is below amount plus fee; a rejection leaves the whole state
  (pool and accounts) as it was; an admission appends the transaction to the pool and
  changes nothing else; a transaction with amount 0 or with equal sender and recipient is
  rejected as invalid whatever the balance.
\<close>

theorem AddTransaction_admission:
  "(fst (AddTransaction lib tx bc) \<noteq> None \<longleftrightarrow>
      (\<not> Transaction_IsValid lib tx \<or> fst (GetBalance bc (tx_From tx)) < tx_Amount tx + tx_Fee tx))
   \<and> (fst (AddTransaction lib tx bc) \<noteq> None \<longrightarrow> snd (AddTransaction lib tx bc) = bc)
   \<and> (fst (AddTransaction lib tx bc) = None \<longrightarrow>
        snd (AddTransaction lib tx bc) = bc\<lparr> bc_TransactionPool := bc_TransactionPool bc @ [tx] \<rparr>)
   \<and> (tx_Amount tx = 0 \<or> tx_From tx = tx_To tx \<longrightarrow>
        fst (AddTransaction lib tx bc) = Some ''invalid transaction'' \<and> snd (AddTransaction lib tx bc) = bc)"
  by (simp add: AddTransaction_def GetBalance_def Transaction_IsValid_def)


theorem AddTransaction_admission_witness:
  "fst (AddTransaction sample_lib sample_tx sample_chain) = None
   \<and> snd (AddTransaction sample_lib sample_tx sample_chain)
       = sample_chain\<lparr> bc_TransactionPool := [sample_tx] \<rparr>
   \<and> fst (AddTransaction sample_lib (sample_tx\<lparr> tx_Amount := 0 \<rparr>) sample_chain) = Some ''invalid transaction''
   \<and> snd (AddTransaction sample_lib (sample_tx\<lparr> tx_Amount := 0 \<rparr>) sample_chain) = sample_chain"
proof -
  have funds: "\<not> fst (GetBalance sample_chain (tx_From sample_tx)) < tx_Amount sample_tx + tx_Fee sample_tx"
    using sample_tx_funds by (simp add: GetBalance_def)
  show ?thesis
    using sample_tx_valid funds sample_chain_pool
      AddTransaction_admission [of sample_lib sample_tx sample_chain]
      AddTransaction_admission [of sample_lib "sample_tx\<lparr> tx_Amount := 0 \<rparr>" sample_chain]
    by simp
qed

text \<open>
  Claim C7. The hash of a transaction is the library digest of the marshalled seven
  fields version, sender, recipient, amount, fee, nonce and timestamp, and of nothing
  else. So two transactions that agree on the seven fields have the same
  \<^verbatim>\<open>CalculateHash\<close>, whatever their signature, public key, status, block hash and stored
  hash fields hold. And each of the seven fields enters the digest: on any set of field
  values on which marshalling followed by the digest has no collision, two transactions
  with the same hash agree on all seven fields.
\<close>

theorem CalculateHash_identity_fields:
  "Transaction_CalculateHash lib a = sha256_hex lib (json_TxHashData lib (hash_fields a))
   \<and> (tx_Version a = tx_Version b \<and> tx_From a = tx_From b \<and> tx_To a = tx_To b
        \<and> tx_Amount a = tx_Amount b \<and> tx_Fee a = tx_Fee b \<and> tx_Nonce a = tx_Nonce b
        \<and> tx_Timestamp a = tx_Timestamp b
      \<longrightarrow> Transaction_CalculateHash lib a = Transaction_CalculateHash lib b)
   \<and> (inj_on (\<lambda>h. sha256_hex lib (json_TxHashData lib h)) D
        \<and> hash_fields a \<in> D \<and> hash_fields b \<in> D
        \<and> Transaction_CalculateHash lib a = Transaction_CalculateHash lib b
      \<longrightarrow> tx_Version a = tx_Version b \<and> tx_From a = tx_From b \<and> tx_To a = tx_To b
        \<and> tx_Amount a = tx_Amount b \<and> tx_Fee a = tx_Fee b \<and> tx_Nonce a = tx_Nonce b
        \<and> tx_Timestamp a = tx_Timestamp b)"
proof (intro conjI impI)
  show digest: "Transaction_CalculateHash lib a = sha256_hex lib (json_TxHashData lib (hash_fields a))"
    by (simp add: Transaction_CalculateHash_def hash_fields_def)
  {
    assume "tx_Version a = tx_Version b \<and> tx_From a = tx_From b \<and> tx_To a = tx_To b
        \<and> tx_Amount a = tx_Amount b \<and> tx_Fee a = tx_Fee b \<and> tx_Nonce a = tx_Nonce b
        \<and> tx_Timestamp a = tx_Timestamp b"
    then show "Transaction_CalculateHash lib a = Transaction_CalculateHash lib b"
      by (simp add: Transaction_CalculateHash_def)
  }
  assume h: "inj_on (\<lambda>h. sha256_hex lib (json_TxHashData lib h)) D
        \<and> hash_fields a \<in> D \<and> hash_fields b \<in> D
        \<and> Transaction_CalculateHash lib a = Transaction_CalculateHash lib b"
  have "sha256_hex lib (json_TxHashData lib (hash_fields a))
          = sha256_hex lib (json_TxHashData lib (hash_fields b))"
    using h by (simp add: Transaction_CalculateHash_def hash_fields_def)
  then have eq: "hash_fields a = hash_fields b"
    using h by (auto dest: inj_onD)
  show "tx_Version a = tx_Version b" using eq by (simp add: hash_fields_def)
  show "tx_From a = tx_From b" using eq by (simp add: hash_fields_def)
  show "tx_To a = tx_To b" using eq by (simp add: hash_fields_def)
  show "tx_Amount a = tx_Amount b" using eq by (simp add: hash_fields_def)
  show "tx_Fee a = tx_Fee b" using eq by (simp add: hash_fields_def)
  show "tx_Nonce a = tx_Nonce b" using eq by (simp add: hash_fields_def)
  show "tx_Timestamp a = tx_Timestamp b" using eq by (simp add: hash_fields_def)
qed

lemma sample_tx_nonce_digests:
  "sha256_hex sample_lib (json_TxHashData sample_lib (hash_fields (sample_tx\<lparr> tx_Nonce := 8 \<rparr>)))
     \<noteq> sha256_hex sample_lib (json_TxHashData sample_lib (hash_fields sample_tx))"
  by code_simp

theorem CalculateHash_identity_fields_witness:
  "Transaction_CalculateHash sample_lib
     (sample_tx\<lparr> tx_Signature := ''forged'', tx_PublicKey := ''other'', tx_Status := ''confirmed'',
                 tx_BlockHash := ''00ab'' \<rparr>)
   = Transaction_CalculateHash sample_lib sample_tx
   \<and> Transaction_CalculateHash sample_lib (sample_tx\<lparr> tx_Nonce := 8 \<rparr>)
       \<noteq> Transaction_CalculateHash sample_lib sample_tx"
proof -
  let ?D = "{hash_fields (sample_tx\<lparr> tx_Nonce := 8 \<rparr>), hash_fields sample_tx}"
  have inj: "inj_on (\<lambda>h. sha256_hex sample_lib (json_TxHashData sample_lib h)) ?D"
    using sample_tx_nonce_digests by (auto simp: inj_on_def)
  have nonce: "tx_Nonce (sample_tx\<lparr> tx_Nonce := 8 \<rparr>) \<noteq> tx_Nonce sample_tx"
    by (simp add: sample_tx_def signed_transaction_def Sign_def NewTransaction_def Let_def)
  have same: "Transaction_CalculateHash sample_lib
     (sample_tx\<lparr> tx_Signature := ''forged'', tx_PublicKey := ''other'', tx_Status := ''confirmed'',
                 tx_BlockHash := ''00ab'' \<rparr>)
   = Transaction_CalculateHash sample_lib sample_tx"
    using CalculateHash_identity_fields [of sample_lib
      "sample_tx\<lparr> tx_Signature := ''forged'', tx_PublicKey := ''other'', tx_Status := ''confirmed'',
                  tx_BlockHash := ''00ab'' \<rparr>" sample_tx "{}", THEN conjunct2, THEN conjunct1]
    by simp
  have differ: "Transaction_CalculateHash sample_lib (sample_tx\<lparr> tx_Nonce := 8 \<rparr>)
       \<noteq> Transaction_CalculateHash sample_lib sample_tx"
    using CalculateHash_identity_fields
            [of sample_lib "sample_tx\<lparr> tx_Nonce := 8 \<rparr>" sample_tx ?D, THEN conjunct2, THEN conjunct2]
      inj nonce
    by auto
  show ?thesis using same differ by simp
qed

text \<open>
  Claim C9. Admission makes no duplicate check: a transaction that \<^verbatim>\<open>AddTransaction\<close> has
  just admitted is admitted again by the next call, after which the pool holds the two
  copies at its end and the accounts are untouched; the duplicate check of the
  \<^verbatim>\<open>Validator\<close> would have answered that the transaction is in the pool already.
\<close>

theorem AddTransaction_no_duplicate_check:
  "AddTransaction lib tx bc = (None, bc1) \<Longrightarrow>
     (\<exists>bc2. AddTransaction lib tx bc1 = (None, bc2)
        \<and> bc_TransactionPool bc2 = bc_TransactionPool bc @ [tx, tx]
        \<and> bc_Accounts bc2 = bc_Accounts bc)
     \<and> isDuplicateTransaction bc1 tx
     \<and> \<not> ValidateTransaction lib bc1 tx"
  by (auto simp: AddTransaction_def isDuplicateTransaction_def ValidateTransaction_def
      split: if_splits)

theorem AddTransaction_no_duplicate_check_witness:
  "AddTransaction sample_lib sample_tx (sample_chain\<lparr> bc_TransactionPool := [sample_tx] \<rparr>)
     = (None, sample_chain\<lparr> bc_TransactionPool := [sample_tx, sample_tx] \<rparr>)"
proof -
  have first: "AddTransaction sample_lib sample_tx sample_chain
                 = (None, sample_chain\<lparr> bc_TransactionPool := [sample_tx] \<rparr>)"
    using sample_tx_valid sample_tx_funds sample_chain_pool by (simp add: AddTransaction_def)
  show ?thesis
    using AddTransaction_no_duplicate_check [OF first] sample_chain_pool
    by (auto simp: AddTransaction_def split: if_splits)
qed

subsection \<open>Proof of work\<close>

lemma IsValidHash_pow_Block [simp]: "IsValidHash (pow\<lparr> pow_Block := b \<rparr>) h = IsValidHash pow h"
  by (simp add: IsValidHash_def)

lemma IsValidHash_nonneg:
  "0 \<le> pow_Difficulty pow \<Longrightarrow>
   IsValidHash pow h =
     Some (pow_Difficulty pow \<le> int (length h)
           \<and> take (nat (pow_Difficulty pow)) h = replicate (nat (pow_Difficulty pow)) (CHR ''0''))"
  by (simp add: IsValidHash_def Let_def)

lemma IsValidHash_negative: "pow_Difficulty pow < 0 \<Longrightarrow> IsValidHash pow h = None"
  by (simp add: IsValidHash_def Let_def)

lemma Mine_loop_step:
  "nonce < MaxNonce \<Longrightarrow>
   Mine_loop lib pow nonce =
     (case IsValidHash pow (hash_at_nonce lib pow nonce) of
        None \<Rightarrow> None
      | Some True \<Rightarrow> Some ((nonce, hash_at_nonce lib pow nonce, None),
                          pow\<lparr> pow_Block := (pow_Block pow)\<lparr> blk_Nonce := nonce \<rparr> \<rparr>)
      | Some False \<Rightarrow> Mine_loop lib (pow\<lparr> pow_Block := (pow_Block pow)\<lparr> blk_Nonce := nonce \<rparr> \<rparr>) (nonce + 1))"
  by (subst Mine_loop.simps) (simp add: Let_def hash_at_nonce_def split: option.split bool.split)

lemma Mine_loop_stop:
  "\<not> nonce < MaxNonce \<Longrightarrow>
   Mine_loop lib pow nonce = Some ((0, [], Some ''failed to mine block after 100000000 attempts''), pow)"
  by (subst Mine_loop.simps) simp

lemma hash_at_nonce_tried [simp]:
  "hash_at_nonce lib (pow\<lparr> pow_Block := (pow_Block pow)\<lparr> blk_Nonce := k \<rparr> \<rparr>) m = hash_at_nonce lib pow m"
  by (simp add: hash_at_nonce_def)

lemma Mine_loop_total:
  "0 \<le> pow_Difficulty pow \<Longrightarrow> \<exists>r. Mine_loop lib pow nonce = Some r"
proof (induction lib pow nonce rule: Mine_loop.induct)
  case (1 lib pow nonce)
  show ?case
  proof (cases "nonce < MaxNonce")
    case False
    then show ?thesis by (simp add: Mine_loop_stop)
  next
    case True
    let ?pow1 = "pow\<lparr> pow_Block := (pow_Block pow)\<lparr> blk_Nonce := nonce \<rparr> \<rparr>"
    show ?thesis
    proof (cases "IsValidHash pow (hash_at_nonce lib pow nonce) = Some False")
      case no: True
      have "IsValidHash ?pow1 (Block_CalculateHash lib (pow_Block ?pow1)) = Some False"
        using no by (simp add: hash_at_nonce_def)
      from "1.IH" [OF True refl refl this] "1.prems"
      have "\<exists>r. Mine_loop lib ?pow1 (nonce + 1) = Some r" by simp
      then show ?thesis using True no by (simp add: Mine_loop_step)
    next
      case False
      then have "IsValidHash pow (hash_at_nonce lib pow nonce) = Some True"
        using "1.prems" by (simp add: IsValidHash_nonneg)
      then show ?thesis using True by (simp add: Mine_loop_step)
    qed
  qed
qed

lemma Mine_loop_found:
  "Mine_loop lib pow nonce = Some ((k, h, None), pow') \<Longrightarrow>
   nonce \<le> k \<and> k < MaxNonce \<and> h = hash_at_nonce lib pow k
   \<and> IsValidHash pow h = Some True
   \<and> (\<forall>m. nonce \<le> m \<and> m < k \<longrightarrow> IsValidHash pow (hash_at_nonce lib pow m) = Some False)
   \<and> pow' = pow\<lparr> pow_Block := (pow_Block pow)\<lparr> blk_Nonce := k \<rparr> \<rparr>"
proof (induction lib pow nonce rule: Mine_loop.induct)
  case (1 lib pow nonce)
  have lt: "nonce < MaxNonce"
    using "1.prems" by (cases "nonce < MaxNonce") (simp_all add: Mine_loop_stop)
  let ?pow1 = "pow\<lparr> pow_Block := (pow_Block pow)\<lparr> blk_Nonce := nonce \<rparr> \<rparr>"
  consider (panic) "IsValidHash pow (hash_at_nonce lib pow nonce) = None"
    | (yes) "IsValidHash pow (hash_at_nonce lib pow nonce) = Some True"
    | (no) "IsValidHash pow (hash_at_nonce lib pow nonce) = Some False"
    by (cases "IsValidHash pow (hash_at_nonce lib pow nonce)") auto
  then show ?case
  proof cases
    case panic
    then show ?thesis using "1.prems" lt by (simp add: Mine_loop_step)
  next
    case yes
    then show ?thesis using "1.prems" lt by (auto simp: Mine_loop_step)
  next
    case no
    have rec: "Mine_loop lib ?pow1 (nonce + 1) = Some ((k, h, None), pow')"
      using "1.prems" lt no by (simp add: Mine_loop_step)
    have "IsValidHash ?pow1 (Block_CalculateHash lib (pow_Block ?pow1)) = Some False"
      using no by (simp add: hash_at_nonce_def)
    from "1.IH" [OF lt refl refl this refl rec]
    have ih: "nonce + 1 \<le> k" "k < MaxNonce" "h = hash_at_nonce lib pow k"
      "IsValidHash pow h = Some True"
      "\<forall>m. nonce + 1 \<le> m \<and> m < k \<longrightarrow> IsValidHash pow (hash_at_nonce lib pow m) = Some False"
      "pow' = pow\<lparr> pow_Block := (pow_Block pow)\<lparr> blk_Nonce := k \<rparr> \<rparr>"
      by auto
    have "IsValidHash pow (hash_at_nonce lib pow m) = Some False" if "nonce \<le> m" "m < k" for m
    proof (cases "m = nonce")
      case True
      then show ?thesis using no by simp
    next
      case False
      then show ?thesis using that ih(5) by simp
    qed
    then show ?thesis using ih by simp
  qed
qed

lemma Mine_loop_failed:
  "Mine_loop lib pow nonce = Some ((k, h, Some e), pow') \<Longrightarrow>
   k = 0 \<and> h = [] \<and> e = ''failed to mine block after 100000000 attempts''
   \<and> (\<forall>m. nonce \<le> m \<and> m < MaxNonce \<longrightarrow> IsValidHash pow (hash_at_nonce lib pow m) = Some False)"
proof (induction lib pow nonce rule: Mine_loop.induct)
  case (1 lib pow nonce)
  show ?case
  proof (cases "nonce < MaxNonce")
    case False
    then show ?thesis using "1.prems" by (auto simp: Mine_loop_stop)
  next
    case lt: True
    let ?pow1 = "pow\<lparr> pow_Block := (pow_Block pow)\<lparr> blk_Nonce := nonce \<rparr> \<rparr>"
    consider (panic) "IsValidHash pow (hash_at_nonce lib pow nonce) = None"
      | (yes) "IsValidHash pow (hash_at_nonce lib pow nonce) = Some True"
      | (no) "IsValidHash pow (hash_at_nonce lib pow nonce) = Some False"
      by (cases "IsValidHash pow (hash_at_nonce lib pow nonce)") auto
    then show ?thesis
    proof cases
      case panic
      then show ?thesis using "1.prems" lt by (simp add: Mine_loop_step)
    next
      case yes
      then show ?thesis using "1.prems" lt by (simp add: Mine_loop_step)
    next
      case no
      have rec: "Mine_loop lib ?pow1 (nonce + 1) = Some ((k, h, Some e), pow')"
        using "1.prems" lt no by (simp add: Mine_loop_step)
      have "IsValidHash ?pow1 (Block_CalculateHash lib (pow_Block ?pow1)) = Some False"
        using no by (simp add: hash_at_nonce_def)
      from "1.IH" [OF lt refl refl this refl rec]
      have ih: "k = 0" "h = []" "e = ''failed to mine block after 100000000 attempts''"
        "\<forall>m. nonce + 1 \<le> m \<and> m < MaxNonce \<longrightarrow> IsValidHash pow (hash_at_nonce lib pow m) = Some False"
        by auto
      have "IsValidHash pow (hash_at_nonce lib pow m) = Some False" if "nonce \<le> m" "m < MaxNonce" for m
      proof (cases "m = nonce")
        case True
        then show ?thesis using no by simp
      next
        case False
        then show ?thesis using that ih(4) by simp
      qed
      then show ?thesis using ih by simp
    qed
  qed
qed

lemma Mine_negative_difficulty: "pow_Difficulty pow < 0 \<Longrightarrow> Mine lib pow = None"
  by (simp add: Mine_def Mine_loop_step MaxNonce_def IsValidHash_negative)

lemma Validate_tried:
  "Validate lib (pow\<lparr> pow_Block := (pow_Block pow)\<lparr> blk_Nonce := k \<rparr> \<rparr>)
     = IsValidHash pow (hash_at_nonce lib pow k)"
  by (simp add: Validate_def hash_at_nonce_def)


text \<open>
  Claim C5. With a non-negative difficulty \<^verbatim>\<open>Mine\<close> always returns. A hash meets the
  difficulty when it is at least that long and starts with that many zero characters.
  \<^verbatim>\<open>Mine\<close> tries the nonces
  0, 1, 2, ... below \<open>MaxNonce = 100000000\<close> in this order and succeeds exactly when one
  of them gives a hash that meets the difficulty; it then returns the least such nonce with
  the hash computed at it, leaves that nonce in the block, and \<^verbatim>\<open>Validate\<close> on the block
  (also after the caller has stored the returned nonce and hash in it) answers true.
  Otherwise it returns nonce 0, the empty hash and an error.
\<close>

theorem Mine_least_nonce:
  assumes "0 \<le> pow_Difficulty pow"
  shows "\<exists>nonce hash err pow'.
     Mine lib pow = Some ((nonce, hash, err), pow')
     \<and> MaxNonce = 100000000
     \<and> (\<forall>h. IsValidHash pow h =
            Some (pow_Difficulty pow \<le> int (length h)
                  \<and> take (nat (pow_Difficulty pow)) h
                      = replicate (nat (pow_Difficulty pow)) (CHR ''0'')))
     \<and> (err = None \<longleftrightarrow>
          (\<exists>m. 0 \<le> m \<and> m < MaxNonce \<and> IsValidHash pow (hash_at_nonce lib pow m) = Some True))
     \<and> (err = None \<longrightarrow>
          0 \<le> nonce \<and> nonce < MaxNonce \<and> hash = hash_at_nonce lib pow nonce
          \<and> IsValidHash pow hash = Some True
          \<and> (\<forall>m. 0 \<le> m \<and> m < nonce \<longrightarrow> IsValidHash pow (hash_at_nonce lib pow m) = Some False)
          \<and> pow' = pow\<lparr> pow_Block := (pow_Block pow)\<lparr> blk_Nonce := nonce \<rparr> \<rparr>
          \<and> Validate lib pow' = Some True
          \<and> Validate lib (pow'\<lparr> pow_Block := (pow_Block pow')\<lparr> blk_Nonce := nonce, blk_Hash := hash \<rparr> \<rparr>)
                = Some True)
     \<and> (err \<noteq> None \<longrightarrow>
          nonce = 0 \<and> hash = []
          \<and> (\<forall>m. 0 \<le> m \<and> m < MaxNonce \<longrightarrow> IsValidHash pow (hash_at_nonce lib pow m) = Some False))"
proof -
  obtain nonce hash err pow' where run: "Mine_loop lib pow 0 = Some ((nonce, hash, err), pow')"
    using Mine_loop_total [OF assms, of lib 0] by (metis prod.exhaust)
  show ?thesis
  proof (cases err)
    case None
    from Mine_loop_found [OF run [unfolded None]]
    have found: "0 \<le> nonce" "nonce < MaxNonce" "hash = hash_at_nonce lib pow nonce"
      "IsValidHash pow hash = Some True"
      "\<forall>m. 0 \<le> m \<and> m < nonce \<longrightarrow> IsValidHash pow (hash_at_nonce lib pow m) = Some False"
      "pow' = pow\<lparr> pow_Block := (pow_Block pow)\<lparr> blk_Nonce := nonce \<rparr> \<rparr>"
      by auto
    have v1: "Validate lib pow' = Some True"
      using found by (simp add: Validate_tried)
    have v2: "Validate lib (pow'\<lparr> pow_Block := (pow_Block pow')\<lparr> blk_Nonce := nonce, blk_Hash := hash \<rparr> \<rparr>)
                = Some True"
      using found(4) unfolding found(3) found(6)
      by (simp add: Validate_def hash_at_nonce_def Block_CalculateHash_def)
    have ex: "\<exists>m. 0 \<le> m \<and> m < MaxNonce \<and> IsValidHash pow (hash_at_nonce lib pow m) = Some True"
      using found by blast
    show ?thesis
      unfolding Mine_def using run None found v1 v2 ex
      by (simp add: MaxNonce_def IsValidHash_nonneg [OF assms])
  next
    case (Some e)
    from Mine_loop_failed [OF run [unfolded Some]]
    have failed: "nonce = 0" "hash = []"
      "\<forall>m. 0 \<le> m \<and> m < MaxNonce \<longrightarrow> IsValidHash pow (hash_at_nonce lib pow m) = Some False"
      by auto
    have "\<not> (\<exists>m. 0 \<le> m \<and> m < MaxNonce \<and> IsValidHash pow (hash_at_nonce lib pow m) = Some True)"
      using failed(3) by auto
    then show ?thesis
      unfolding Mine_def using run Some failed
      by (simp add: MaxNonce_def IsValidHash_nonneg [OF assms])
  qed
qed

lemma sample_Mine:
  "Mine sample_lib (NewProofOfWork sample_candidate 1) =
     Some ((3, Block_CalculateHash sample_lib (sample_candidate\<lparr> blk_Nonce := 3 \<rparr>), None),
           NewProofOfWork (sample_candidate\<lparr> blk_Nonce := 3 \<rparr>) 1)"
  by code_simp

lemma sample_block_hash:
  "Block_CalculateHash sample_lib (sample_candidate\<lparr> blk_Nonce := 3 \<rparr>)
     = ''0160016001600160016001600160016001600160016001600160016001600160''"
  by code_simp

theorem Mine_least_nonce_witness:
  "fst (the (Mine sample_lib (NewProofOfWork sample_candidate 1)))
     = (3, ''0160016001600160016001600160016001600160016001600160016001600160'', None)
   \<and> IsValidHash (NewProofOfWork sample_candidate 1)
        (hash_at_nonce sample_lib (NewProofOfWork sample_candidate 1) 2) = Some False
   \<and> Validate sample_lib (snd (the (Mine sample_lib (NewProofOfWork sample_candidate 1)))) = Some True"
proof -
  have d: "0 \<le> pow_Difficulty (NewProofOfWork sample_candidate 1)"
    by (simp add: NewProofOfWork_def)
  show ?thesis
    using Mine_least_nonce [OF d, of sample_lib] sample_Mine sample_block_hash
    by auto
qed

subsection \<open>Committing a block\<close>

lemma account_get_upd [simp]:
  "account_get (m(k \<mapsto> v)) a = (if a = k then v else account_get m a)"
  by (simp add: account_get_def)

lemma account_get_empty [simp]: "account_get Map.empty a = 0"
  by (simp add: account_get_def)

lemma processTransaction_balance:
  "account_get (bc_Accounts (processTransaction bc tx)) a =
     account_get (bc_Accounts bc) a
       - (if tx_From tx = a then tx_Amount tx + tx_Fee tx else 0)
       + (if tx_To tx = a then tx_Amount tx else 0)"
  by (simp add: processTransaction_def Let_def)

lemma processTransaction_other [simp]:
  "bc_Chain (processTransaction bc tx) = bc_Chain bc"
  "bc_TransactionPool (processTransaction bc tx) = bc_TransactionPool bc"
  "bc_PendingTx (processTransaction bc tx) = bc_PendingTx bc"
  "bc_Difficulty (processTransaction bc tx) = bc_Difficulty bc"
  "bc_BlockReward (processTransaction bc tx) = bc_BlockReward bc"
  by (simp_all add: processTransaction_def Let_def)

lemma foldl_processTransaction_other [simp]:
  "bc_Chain (foldl processTransaction bc txs) = bc_Chain bc"
  "bc_TransactionPool (foldl processTransaction bc txs) = bc_TransactionPool bc"
  "bc_PendingTx (foldl processTransaction bc txs) = bc_PendingTx bc"
  "bc_Difficulty (foldl processTransaction bc txs) = bc_Difficulty bc"
  "bc_BlockReward (foldl processTransaction bc txs) = bc_BlockReward bc"
  by (induction txs arbitrary: bc; simp)+

lemma foldl_processTransaction_balance:
  "account_get (bc_Accounts (foldl processTransaction bc txs)) a =
     account_get (bc_Accounts bc) a - total_debit txs a + total_credit txs a"
proof (induction txs arbitrary: bc)
  case Nil
  show ?case by (simp add: total_debit_def total_credit_def)
next
  case (Cons tx txs)
  have "account_get (bc_Accounts (foldl processTransaction (processTransaction bc tx) txs)) a =
          account_get (bc_Accounts (processTransaction bc tx)) a
            - total_debit txs a + total_credit txs a"
    by (rule Cons.IH)
  then show ?case
    by (simp add: processTransaction_balance total_debit_def total_credit_def)
qed

lemma Validate_nonneg:
  "0 \<le> d \<Longrightarrow> Validate lib (NewProofOfWork b d) = Some True \<or> Validate lib (NewProofOfWork b d) = Some False"
  by (auto simp: Validate_def NewProofOfWork_def IsValidHash_nonneg Let_def)


lemma IsValidBlock_decided:
  assumes "bc_Chain bc \<noteq> []" and "0 \<le> bc_Difficulty bc"
  shows "IsValidBlock lib bc (Some b) =
     Some (\<not> (blk_Index b \<noteq> int (length (bc_Chain bc))
              \<or> blk_PrevHash b \<noteq> blk_Hash (last (bc_Chain bc))
              \<or> Validate lib (NewProofOfWork b (bc_Difficulty bc)) = Some False
              \<or> \<not> list_all (Transaction_IsValid lib) (blk_Transactions b)))"
  using assms Validate_nonneg [OF assms(2), of lib b]
  by (auto simp: IsValidBlock_def Let_def)



lemma AddBlock_accepted:
  assumes "IsValidBlock lib bc (Some b) = Some True"
  shows "\<exists>bc'. AddBlock lib (Some b) bc = Some (None, bc')
     \<and> (\<forall>a. account_get (bc_Accounts bc') a =
              account_get (bc_Accounts bc) a - total_debit (blk_Transactions b) a
                + total_credit (blk_Transactions b) a
                + (if a = blk_Miner b then blk_BlockReward b else 0))
     \<and> bc_Chain bc' = bc_Chain bc @ [b]
     \<and> bc_TransactionPool bc' =
         filter (\<lambda>tx. tx_Hash tx \<notin> tx_Hash ` set (blk_Transactions b)) (bc_TransactionPool bc)
     \<and> bc_PendingTx bc' = bc_PendingTx bc
     \<and> bc_Difficulty bc' = bc_Difficulty bc
     \<and> bc_BlockReward bc' = bc_BlockReward bc"
  using assms
  by (simp add: AddBlock_def Let_def removeProcessedTransactions_def
      foldl_processTransaction_balance)



lemma sample_tx_fields:
  "tx_From sample_tx = ''genesis_address''" "tx_To sample_tx = ''alice''"
  "tx_Amount sample_tx = 100" "tx_Fee sample_tx = 1"
  by (simp_all add: sample_tx_def signed_transaction_def Sign_def NewTransaction_def Let_def)

lemma sample_chain_admitted_eq:
  "sample_chain_admitted = sample_chain\<lparr> bc_TransactionPool := [sample_tx] \<rparr>"
  using sample_tx_valid sample_tx_funds sample_chain_pool
  by (simp add: sample_chain_admitted_def AddTransaction_def)

lemma sample_chain_admitted_fields:
  "bc_Chain sample_chain_admitted = bc_Chain sample_chain"
  "bc_Difficulty sample_chain_admitted = 1"
  "bc_Accounts sample_chain_admitted = [''genesis_address'' \<mapsto> 1000000]"
  "bc_TransactionPool sample_chain_admitted = [sample_tx]"
  by (simp_all add: sample_chain_admitted_eq sample_chain_def NewBlockchain_Difficulty
      NewBlockchain_Accounts)

lemma sample_chain_length: "length (bc_Chain sample_chain) = 1" "bc_Chain sample_chain \<noteq> []"
  by (simp_all add: sample_chain_def NewBlockchain_Chain)

lemma sample_block_fields:
  "blk_Index sample_block = 1"
  "blk_PrevHash sample_block = blk_Hash (last (bc_Chain sample_chain))"
  "blk_Transactions sample_block = [sample_tx]"
  "blk_Miner sample_block = ''miner''"
  "blk_BlockReward sample_block = 50"
  by (simp_all add: sample_block_def sample_candidate_def NewBlock_def Let_def)

lemma sample_block_pow: "Validate sample_lib (NewProofOfWork sample_block 1) = Some True"
  by code_simp


subsection \<open>Validating the whole chain\<close>

lemma IsChainValid_loop_stop:
  "\<not> i < length (bc_Chain bc) \<Longrightarrow> IsChainValid_loop lib bc i = Some True"
  by (subst IsChainValid_loop.simps) simp

lemma IsChainValid_loop_step:
  assumes "i < length (bc_Chain bc)" and "0 \<le> bc_Difficulty bc"
  shows "IsChainValid_loop lib bc i =
     (if block_checks lib bc i then IsChainValid_loop lib bc (i + 1) else Some False)"
  using assms Validate_nonneg [OF assms(2), of lib "bc_Chain bc ! i"]
  by (subst IsChainValid_loop.simps) (auto simp: Let_def block_checks_def)

lemma IsChainValid_loop_decided:
  assumes "0 \<le> bc_Difficulty bc"
  shows "IsChainValid_loop lib bc i =
     Some (\<forall>j. i \<le> j \<and> j < length (bc_Chain bc) \<longrightarrow> block_checks lib bc j)"
proof (induction "length (bc_Chain bc) - i" arbitrary: i)
  case 0
  then show ?case by (auto simp: IsChainValid_loop_stop)
next
  case (Suc n)
  then have lt: "i < length (bc_Chain bc)" and n: "n = length (bc_Chain bc) - (i + 1)"
    by simp_all
  have ih: "IsChainValid_loop lib bc (i + 1) =
     Some (\<forall>j. i + 1 \<le> j \<and> j < length (bc_Chain bc) \<longrightarrow> block_checks lib bc j)"
    by (rule Suc.hyps(1) [OF n])
  have split: "(\<forall>j. i \<le> j \<and> j < length (bc_Chain bc) \<longrightarrow> block_checks lib bc j) \<longleftrightarrow>
      (block_checks lib bc i \<and> (\<forall>j. i + 1 \<le> j \<and> j < length (bc_Chain bc) \<longrightarrow> block_checks lib bc j))"
  proof
    assume all: "\<forall>j. i \<le> j \<and> j < length (bc_Chain bc) \<longrightarrow> block_checks lib bc j"
    then have "block_checks lib bc i" using lt by simp
    moreover have "\<forall>j. i + 1 \<le> j \<and> j < length (bc_Chain bc) \<longrightarrow> block_checks lib bc j"
      using all by simp
    ultimately show "block_checks lib bc i \<and> (\<forall>j. i + 1 \<le> j \<and> j < length (bc_Chain bc) \<longrightarrow> block_checks lib bc j)"
      by simp
  next
    assume r: "block_checks lib bc i \<and> (\<forall>j. i + 1 \<le> j \<and> j < length (bc_Chain bc) \<longrightarrow> block_checks lib bc j)"
    show "\<forall>j. i \<le> j \<and> j < length (bc_Chain bc) \<longrightarrow> block_checks lib bc j"
    proof (intro allI impI)
      fix j assume j: "i \<le> j \<and> j < length (bc_Chain bc)"
      show "block_checks lib bc j"
      proof (cases "j = i")
        case True
        then show ?thesis using r by simp
      next
        case False
        then have "i + 1 \<le> j" using j by simp
        then show ?thesis using r j by simp
      qed
    qed
  qed
  show ?case
    unfolding IsChainValid_loop_step [OF lt assms] ih split by simp
qed

lemma alter_PrevHash_fields [simp]:
  "bc_Difficulty (alter_PrevHash i h bc) = bc_Difficulty bc"
  "length (bc_Chain (alter_PrevHash i h bc)) = length (bc_Chain bc)"
  by (simp_all add: alter_PrevHash_def)

lemma alter_PrevHash_genesis_checks:
  "1 \<le> j \<Longrightarrow> j < length (bc_Chain bc) \<Longrightarrow>
   block_checks lib (alter_PrevHash 0 h bc) j = block_checks lib bc j"
proof -
  assume j: "1 \<le> j" "j < length (bc_Chain bc)"
  then have "0 < length (bc_Chain bc)" by linarith
  then show ?thesis
    using j by (cases "j = 1") (simp_all add: block_checks_def alter_PrevHash_def)
qed

lemma alter_PrevHash_breaks_link:
  assumes "1 \<le> i" "i < length (bc_Chain bc)" "block_checks lib bc i"
    "h \<noteq> blk_PrevHash (bc_Chain bc ! i)"
  shows "\<not> block_checks lib (alter_PrevHash i h bc) i"
  using assms by (simp add: block_checks_def alter_PrevHash_def)

text \<open>
  Claim C4, amended. With a non-negative difficulty \<^verbatim>\<open>IsChainValid\<close> answers true exactly
  when every block after the genesis block passes the three checks (stored hash equals
  recomputed hash, link to the predecessor, proof of work); the genesis block itself is
  not examined. So it answers true for every chain whose later blocks pass the checks;
  it answers false when, in a chain it accepts, the previous hash of any block after the
  genesis block is altered; and altering the previous hash of the genesis block never
  changes its answer.
\<close>

theorem IsChainValid_checks_after_genesis:
  assumes "0 \<le> bc_Difficulty bc"
  shows "IsChainValid lib bc =
           Some (\<forall>j. 1 \<le> j \<and> j < length (bc_Chain bc) \<longrightarrow> block_checks lib bc j)
     \<and> (\<forall>i h. IsChainValid lib bc = Some True \<and> 1 \<le> i \<and> i < length (bc_Chain bc)
              \<and> h \<noteq> blk_PrevHash (bc_Chain bc ! i)
            \<longrightarrow> IsChainValid lib (alter_PrevHash i h bc) = Some False)
     \<and> (\<forall>h. IsChainValid lib (alter_PrevHash 0 h bc) = IsChainValid lib bc)"
proof (intro conjI allI impI)
  show main: "IsChainValid lib bc =
           Some (\<forall>j. 1 \<le> j \<and> j < length (bc_Chain bc) \<longrightarrow> block_checks lib bc j)"
    unfolding IsChainValid_def by (rule IsChainValid_loop_decided [OF assms])
  {
    fix i h
    assume a: "IsChainValid lib bc = Some True \<and> 1 \<le> i \<and> i < length (bc_Chain bc)
              \<and> h \<noteq> blk_PrevHash (bc_Chain bc ! i)"
    then have "block_checks lib bc i" using main by simp
    then have "\<not> block_checks lib (alter_PrevHash i h bc) i"
      using a alter_PrevHash_breaks_link [of i bc lib h] by simp
    then have "\<not> (\<forall>j. 1 \<le> j \<and> j < length (bc_Chain (alter_PrevHash i h bc))
                   \<longrightarrow> block_checks lib (alter_PrevHash i h bc) j)"
      using a by auto
    then show "IsChainValid lib (alter_PrevHash i h bc) = Some False"
      unfolding IsChainValid_def
      using IsChainValid_loop_decided [of "alter_PrevHash i h bc" lib 1] assms by simp
  }
  {
    fix h
    have "(\<forall>j. 1 \<le> j \<and> j < length (bc_Chain (alter_PrevHash 0 h bc))
             \<longrightarrow> block_checks lib (alter_PrevHash 0 h bc) j)
          \<longleftrightarrow> (\<forall>j. 1 \<le> j \<and> j < length (bc_Chain bc) \<longrightarrow> block_checks lib bc j)"
      using alter_PrevHash_genesis_checks [of _ bc lib h] by auto
    then show "IsChainValid lib (alter_PrevHash 0 h bc) = IsChainValid lib bc"
      unfolding IsChainValid_def
      using IsChainValid_loop_decided [of "alter_PrevHash 0 h bc" lib 1]
        IsChainValid_loop_decided [of bc lib 1] assms by simp
  }
qed


lemma sample_genesis_hash:
  "blk_Hash (last (bc_Chain sample_chain))
     = ''6f2a6f2a6f2a6f2a6f2a6f2a6f2a6f2a6f2a6f2a6f2a6f2a6f2a6f2a6f2a6f2a''"
  by code_simp

lemma sample_block_accepted:
  "IsValidBlock sample_lib sample_chain_admitted (Some sample_block) = Some True"
proof -
  have ne: "bc_Chain sample_chain_admitted \<noteq> []"
    by (simp add: sample_chain_admitted_fields sample_chain_length)
  have d: "0 \<le> bc_Difficulty sample_chain_admitted"
    by (simp add: sample_chain_admitted_fields)
  show ?thesis
    unfolding IsValidBlock_decided [OF ne d]
    using sample_tx_valid
    by (simp add: sample_block_fields sample_chain_admitted_fields sample_chain_length
        sample_block_pow)
qed

lemma sample_chain_committed_fields:
  "bc_Chain sample_chain_committed = bc_Chain sample_chain @ [sample_block]"
  "bc_Difficulty sample_chain_committed = 1"
  "bc_TransactionPool sample_chain_committed = []"
  using AddBlock_accepted [OF sample_block_accepted]
  by (auto simp: sample_chain_committed_def sample_chain_admitted_fields sample_block_fields)

lemma sample_chain_committed_valid: "IsChainValid sample_lib sample_chain_committed = Some True"
proof -
  have d: "0 \<le> bc_Difficulty sample_chain_committed"
    by (simp add: sample_chain_committed_fields)
  have b1: "bc_Chain sample_chain_committed ! 1 = sample_block"
    by (simp add: sample_chain_committed_fields sample_chain_length nth_append)
  have b0: "blk_Hash (bc_Chain sample_chain_committed ! 0) = blk_Hash (last (bc_Chain sample_chain))"
    by (simp add: sample_chain_committed_fields sample_chain_def NewBlockchain_Chain)
  have stored: "blk_Hash sample_block = Block_CalculateHash sample_lib sample_block"
    by (simp add: sample_block_def Block_CalculateHash_def)
  have "block_checks sample_lib sample_chain_committed 1"
    using b1 b0 stored sample_block_pow
    by (simp add: block_checks_def sample_chain_committed_fields(2) sample_block_fields)
  moreover have "length (bc_Chain sample_chain_committed) = 2"
    by (simp add: sample_chain_committed_fields sample_chain_length)
  ultimately have "\<forall>j. 1 \<le> j \<and> j < length (bc_Chain sample_chain_committed)
      \<longrightarrow> block_checks sample_lib sample_chain_committed j"
    by (auto simp: le_less_Suc_eq numeral_2_eq_2)
  then show ?thesis
    unfolding IsChainValid_def IsChainValid_loop_decided [OF d] by simp
qed

theorem IsChainValid_checks_after_genesis_witness:
  "IsChainValid sample_lib sample_chain_committed = Some True
   \<and> IsChainValid sample_lib (alter_PrevHash 1 ''tampered'' sample_chain_committed) = Some False"
proof -
  have d: "0 \<le> bc_Difficulty sample_chain_committed"
    by (simp add: sample_chain_committed_fields)
  have i: "1 < length (bc_Chain sample_chain_committed)"
    by (simp add: sample_chain_committed_fields sample_chain_length)
  have h: "''tampered'' \<noteq> blk_PrevHash (bc_Chain sample_chain_committed ! 1)"
    by (simp add: sample_chain_committed_fields sample_chain_length nth_append
        sample_block_fields sample_genesis_hash)
  from IsChainValid_checks_after_genesis [OF d, of sample_lib]
  have "IsChainValid sample_lib sample_chain_committed = Some True \<and> (1::nat) \<le> 1
          \<and> 1 < length (bc_Chain sample_chain_committed)
          \<and> ''tampered'' \<noteq> blk_PrevHash (bc_Chain sample_chain_committed ! 1)
        \<longrightarrow> IsChainValid sample_lib (alter_PrevHash 1 ''tampered'' sample_chain_committed) = Some False"
    by blast
  then show ?thesis
    using sample_chain_committed_valid i h by simp
qed

text \<open>
  The claim as stated fails on the genesis block: in the two-block sample chain, which
  \<^verbatim>\<open>IsChainValid\<close> accepts, overwriting the previous hash of block 0 leaves the answer
  true.
\<close>

theorem IsChainValid_genesis_counterexample:
  "IsChainValid sample_lib sample_chain_committed = Some True
   \<and> blk_PrevHash (bc_Chain sample_chain_committed ! 0) = ''0''
   \<and> blk_PrevHash (bc_Chain (alter_PrevHash 0 ''tampered'' sample_chain_committed) ! 0) = ''tampered''
   \<and> IsChainValid sample_lib (alter_PrevHash 0 ''tampered'' sample_chain_committed) = Some True"
proof -
  have d: "0 \<le> bc_Difficulty sample_chain_committed"
    by (simp add: sample_chain_committed_fields)
  have same: "\<And>j. 1 \<le> j \<Longrightarrow> j < length (bc_Chain sample_chain_committed) \<Longrightarrow>
      block_checks sample_lib (alter_PrevHash 0 ''tampered'' sample_chain_committed) j
        = block_checks sample_lib sample_chain_committed j"
    by (rule alter_PrevHash_genesis_checks)
  have "IsChainValid sample_lib (alter_PrevHash 0 ''tampered'' sample_chain_committed)
          = IsChainValid sample_lib sample_chain_committed"
    unfolding IsChainValid_def
    using IsChainValid_loop_decided [of "alter_PrevHash 0 ''tampered'' sample_chain_committed" sample_lib 1]
      IsChainValid_loop_decided [OF d, of sample_lib 1] d same
    by auto
  moreover have "blk_PrevHash (bc_Chain sample_chain_committed ! 0) = ''0''"
    by (simp add: sample_chain_committed_fields sample_chain_def NewBlockchain_Chain NewBlock_def Let_def)
  moreover have "blk_PrevHash (bc_Chain (alter_PrevHash 0 ''tampered'' sample_chain_committed) ! 0) = ''tampered''"
    by (simp add: alter_PrevHash_def sample_chain_committed_fields sample_chain_def NewBlockchain_Chain)
  ultimately show ?thesis
    using sample_chain_committed_valid by simp
qed

subsection \<open>Balances of addresses the chain has never seen\<close>

lemma dom_processTransaction:
  "dom (bc_Accounts (processTransaction bc tx)) = dom (bc_Accounts bc) \<union> {tx_From tx, tx_To tx}"
  by (auto simp: processTransaction_def Let_def)

lemma dom_foldl_processTransaction:
  "dom (bc_Accounts (foldl processTransaction bc txs)) =
     dom (bc_Accounts bc) \<union> tx_From ` set txs \<union> tx_To ` set txs"
  by (induction txs arbitrary: bc) (auto simp: dom_processTransaction)

lemma appears_in_chain_append:
  "appears_in_chain a (chain @ [b]) \<longleftrightarrow> appears_in_chain a chain \<or> appears_in_block a b"
  by (auto simp: appears_in_chain_def list_ex_iff)

lemma appears_in_block_iff:
  "appears_in_block a b \<longleftrightarrow>
     a = blk_Miner b \<or> a \<in> tx_From ` set (blk_Transactions b) \<or> a \<in> tx_To ` set (blk_Transactions b)"
  by (auto simp: appears_in_block_def list_ex_iff)

lemma AddBlock_dom:
  assumes "AddBlock lib blk bc = Some (err, bc')"
    and "dom (bc_Accounts bc) \<subseteq> {a. appears_in_chain a (bc_Chain bc)}"
  shows "dom (bc_Accounts bc') \<subseteq> {a. appears_in_chain a (bc_Chain bc')}"
proof (cases "IsValidBlock lib bc blk")
  case None
  then show ?thesis using assms by (simp add: AddBlock_def)
next
  case (Some v)
  show ?thesis
  proof (cases v)
    case False
    then show ?thesis using assms Some by (simp add: AddBlock_def)
  next
    case True
    then obtain b where b: "blk = Some b"
      using Some by (cases blk) (simp_all add: IsValidBlock_def)
    have bc': "bc' = removeProcessedTransactions
        ((foldl processTransaction bc (blk_Transactions b))
           \<lparr> bc_Accounts := (bc_Accounts (foldl processTransaction bc (blk_Transactions b)))
                (blk_Miner b \<mapsto>
                   account_get (bc_Accounts (foldl processTransaction bc (blk_Transactions b))) (blk_Miner b)
                     + blk_BlockReward b),
             bc_Chain := bc_Chain bc @ [b] \<rparr>)
        (blk_Transactions b)"
      using assms(1) Some True b by (simp add: AddBlock_def Let_def)
    have chain: "bc_Chain bc' = bc_Chain bc @ [b]"
      by (simp add: bc' removeProcessedTransactions_def)
    have dom: "dom (bc_Accounts bc') =
        dom (bc_Accounts bc) \<union> tx_From ` set (blk_Transactions b)
          \<union> tx_To ` set (blk_Transactions b) \<union> {blk_Miner b}"
      by (simp add: bc' removeProcessedTransactions_def dom_foldl_processTransaction)
    show ?thesis
      unfolding chain dom using assms(2)
      by (auto simp: appears_in_chain_append appears_in_block_iff)
  qed
qed

lemma reachable_dom:
  "reachable lib bc \<Longrightarrow> dom (bc_Accounts bc) \<subseteq> {a. appears_in_chain a (bc_Chain bc)}"
proof (induction rule: reachable.induct)
  case (reachable_new difficulty blockReward now)
  show ?case
    by (auto simp: NewBlockchain_Accounts NewBlockchain_Chain appears_in_chain_def
        appears_in_block_def NewBlock_def Let_def genesisTransactions_def split: if_splits)
next
  case (reachable_AddBlock bc blk err bc')
  from AddBlock_dom [OF reachable_AddBlock.hyps(2) reachable_AddBlock.IH]
  show ?case .
next
  case (reachable_AddTransaction bc tx err bc')
  have "bc_Accounts bc' = bc_Accounts bc" "bc_Chain bc' = bc_Chain bc"
    using reachable_AddTransaction.hyps(2) by (auto simp: AddTransaction_def split: if_splits)
  then show ?case using reachable_AddTransaction.IH by simp
qed

text \<open>
  Claim C10. \<^verbatim>\<open>GetBalance\<close> is a total query that leaves the state as it is, in every
  state and for every address. In every state reachable from \<^verbatim>\<open>NewBlockchain\<close> by calls
  of \<^verbatim>\<open>AddBlock\<close> and \<^verbatim>\<open>AddTransaction\<close>, it answers 0 for every address that is neither
  the sender nor the recipient of a transaction in a block of the chain nor the miner of
  such a block (the genesis block, whose transaction allocates the genesis balance,
  included).
\<close>

theorem GetBalance_unseen_address:
  "(reachable lib bc \<and> \<not> appears_in_chain address (bc_Chain bc) \<longrightarrow> GetBalance bc address = (0, bc))
   \<and> snd (GetBalance bc address) = bc"
proof (intro conjI impI)
  assume a: "reachable lib bc \<and> \<not> appears_in_chain address (bc_Chain bc)"
  then have "address \<notin> dom (bc_Accounts bc)"
    using reachable_dom [of lib bc] by auto
  then show "GetBalance bc address = (0, bc)"
    by (auto simp: GetBalance_def account_get_def split: option.splits)
next
  show "snd (GetBalance bc address) = bc"
    by (simp add: GetBalance_def)
qed

lemma sample_chain_committed_reachable: "reachable sample_lib sample_chain_committed"
proof -
  have r0: "reachable sample_lib sample_chain"
    unfolding sample_chain_def by (rule reachable_new)
  have "AddTransaction sample_lib sample_tx sample_chain = (None, sample_chain_admitted)"
    using sample_tx_valid sample_tx_funds
    by (simp add: sample_chain_admitted_def AddTransaction_def)
  from reachable_AddTransaction [OF r0 this]
  have r1: "reachable sample_lib sample_chain_admitted" .
  obtain bc' where run: "AddBlock sample_lib (Some sample_block) sample_chain_admitted = Some (None, bc')"
    using AddBlock_accepted [OF sample_block_accepted] by blast
  then have "bc' = sample_chain_committed"
    by (simp add: sample_chain_committed_def)
  then show ?thesis
    using reachable_AddBlock [OF r1 run] by simp
qed

lemma sample_chain_committed_bob:
  "\<not> appears_in_chain ''bob'' (bc_Chain sample_chain_committed)"
proof -
  have "\<not> appears_in_chain ''bob'' (bc_Chain sample_chain @ [sample_block])"
    by code_simp
  then show ?thesis by (simp add: sample_chain_committed_fields)
qed

theorem GetBalance_unseen_address_witness:
  "GetBalance sample_chain_committed ''bob'' = (0, sample_chain_committed)"
  using GetBalance_unseen_address [of sample_lib sample_chain_committed "''bob''"]
    sample_chain_committed_reachable sample_chain_committed_bob
  by simp

subsection \<open>Blocks produced by CreateNewBlock\<close>

lemma NewBlock_fields [simp]:
  "blk_Index (NewBlock lib i txs p d now) = i"
  "blk_PrevHash (NewBlock lib i txs p d now) = p"
  "blk_Transactions (NewBlock lib i txs p d now) = txs"
  "blk_BlockReward (NewBlock lib i txs p d now) = 50"
  "blk_Difficulty (NewBlock lib i txs p d now) = d"
  by (simp_all add: NewBlock_def Let_def)

lemma CreateNewBlock_mined:
  assumes "CreateNewBlock lib miner now bc = Some (Some b, None)"
  shows "bc_Chain bc \<noteq> []
     \<and> blk_Index b = int (length (bc_Chain bc))
     \<and> blk_PrevHash b = blk_Hash (last (bc_Chain bc))
     \<and> blk_Transactions b = getTransactionsForBlock bc
     \<and> blk_Miner b = miner
     \<and> blk_BlockReward b = 50
     \<and> Validate lib (NewProofOfWork b (bc_Difficulty bc)) = Some True"
proof -
  have ne: "bc_Chain bc \<noteq> []"
    using assms by (auto simp: CreateNewBlock_def split: if_splits)
  define newBlock where "newBlock =
    (NewBlock lib (int (length (bc_Chain bc))) (getTransactionsForBlock bc)
       (blk_Hash (last (bc_Chain bc))) (bc_Difficulty bc) now)\<lparr> blk_Miner := miner \<rparr>"
  define pow where "pow = NewProofOfWork newBlock (bc_Difficulty bc)"
  from assms ne obtain nonce hash pow' where
    run: "Mine lib pow = Some ((nonce, hash, None), pow')"
    and b: "b = (pow_Block pow')\<lparr> blk_Nonce := nonce, blk_Hash := hash \<rparr>"
    by (auto simp: CreateNewBlock_def Let_def newBlock_def pow_def
        split: option.splits prod.splits)
  from Mine_loop_found [OF run [unfolded Mine_def]]
  have found: "hash = hash_at_nonce lib pow nonce" "IsValidHash pow hash = Some True"
    "pow' = pow\<lparr> pow_Block := (pow_Block pow)\<lparr> blk_Nonce := nonce \<rparr> \<rparr>"
    by auto
  have b': "b = newBlock\<lparr> blk_Nonce := nonce, blk_Hash := hash \<rparr>"
    unfolding b found(3) by (simp add: pow_def NewProofOfWork_def)
  have "Validate lib (NewProofOfWork b (bc_Difficulty bc)) = IsValidHash pow hash"
    unfolding b' found(1)
    by (simp add: Validate_def hash_at_nonce_def pow_def NewProofOfWork_def
        Block_CalculateHash_def IsValidHash_def)
  then show ?thesis
    using ne found(2) by (simp add: b' newBlock_def)
qed

subsection \<open>Overdrawing an account\<close>

lemma signed_transaction_fields [simp]:
  "tx_From (signed_transaction lib f t a fee n now k) = f"
  "tx_To (signed_transaction lib f t a fee n now k) = t"
  "tx_Amount (signed_transaction lib f t a fee n now k) = a"
  "tx_Fee (signed_transaction lib f t a fee n now k) = fee"
  by (simp_all add: signed_transaction_def Sign_def NewTransaction_def Let_def)

lemma signed_transaction_valid:
  assumes "\<And>s. sha256_hex lib s \<noteq> []" and "0 < a" and "f \<noteq> t"
  shows "Transaction_IsValid lib (signed_transaction lib f t a fee n now k)"
  using assms
  by (simp add: Transaction_IsValid_def VerifySignature_def signed_transaction_def Sign_def
      NewTransaction_def Let_def)

lemma double_spend_admitted_eq:
  assumes "\<And>s. sha256_hex lib s \<noteq> []"
  shows "AddTransaction lib (double_spend_first lib) (NewBlockchain lib d r t0) =
           (None, (NewBlockchain lib d r t0)\<lparr> bc_TransactionPool := [double_spend_first lib] \<rparr>)"
    and "AddTransaction lib (double_spend_second lib)
           ((NewBlockchain lib d r t0)\<lparr> bc_TransactionPool := [double_spend_first lib] \<rparr>) =
           (None, (NewBlockchain lib d r t0)
                     \<lparr> bc_TransactionPool := [double_spend_first lib, double_spend_second lib] \<rparr>)"
    and "double_spend_admitted lib d r t0 =
           (NewBlockchain lib d r t0)
              \<lparr> bc_TransactionPool := [double_spend_first lib, double_spend_second lib] \<rparr>"
proof -
  have v1: "Transaction_IsValid lib (double_spend_first lib)"
    unfolding double_spend_first_def by (rule signed_transaction_valid [OF assms]) simp_all
  have v2: "Transaction_IsValid lib (double_spend_second lib)"
    unfolding double_spend_second_def by (rule signed_transaction_valid [OF assms]) simp_all
  show 1: "AddTransaction lib (double_spend_first lib) (NewBlockchain lib d r t0) =
           (None, (NewBlockchain lib d r t0)\<lparr> bc_TransactionPool := [double_spend_first lib] \<rparr>)"
    using v1
    by (simp add: AddTransaction_def NewBlockchain_Accounts NewBlockchain_TransactionPool
        double_spend_first_def)
  show 2: "AddTransaction lib (double_spend_second lib)
           ((NewBlockchain lib d r t0)\<lparr> bc_TransactionPool := [double_spend_first lib] \<rparr>) =
           (None, (NewBlockchain lib d r t0)
                     \<lparr> bc_TransactionPool := [double_spend_first lib, double_spend_second lib] \<rparr>)"
    using v2
    by (simp add: AddTransaction_def NewBlockchain_Accounts double_spend_second_def)
  show "double_spend_admitted lib d r t0 =
           (NewBlockchain lib d r t0)
              \<lparr> bc_TransactionPool := [double_spend_first lib, double_spend_second lib] \<rparr>"
    by (simp add: double_spend_admitted_def 1 2)
qed

text \<open>
  Claim C1 fails on the code. Whatever the hash function (as long as a digest is never the
  empty string) and whatever the non-negative difficulty: a fresh chain admits both
  transfers of 600000 out of the genesis balance of 1000000, since each is covered on its
  own; every block that \<^verbatim>\<open>CreateNewBlock\<close> then mines holds both; \<^verbatim>\<open>AddBlock\<close> accepts
  it and applies both, and the balance of the genesis account ends below zero.
\<close>

theorem AddBlock_commits_double_spend:
  assumes "\<And>s. sha256_hex lib s \<noteq> []"
    and "0 \<le> d"
    and "CreateNewBlock lib miner t1 (double_spend_admitted lib d r t0) = Some (Some b, None)"
  shows "fst (AddTransaction lib (double_spend_first lib) (NewBlockchain lib d r t0)) = None
     \<and> fst (AddTransaction lib (double_spend_second lib)
              (snd (AddTransaction lib (double_spend_first lib) (NewBlockchain lib d r t0)))) = None
     \<and> blk_Transactions b = [double_spend_first lib, double_spend_second lib]
     \<and> (\<exists>bc'. AddBlock lib (Some b) (double_spend_admitted lib d r t0) = Some (None, bc')
             \<and> fst (GetBalance bc' ''genesis_address'') < 0)"
proof -
  let ?bc = "double_spend_admitted lib d r t0"
  note adm = double_spend_admitted_eq [OF assms(1), of d r t0]
  have fields: "bc_Difficulty ?bc = d" "bc_Chain ?bc \<noteq> []"
    "bc_Accounts ?bc = [''genesis_address'' \<mapsto> 1000000]"
    "bc_TransactionPool ?bc = [double_spend_first lib, double_spend_second lib]"
    by (simp_all add: adm(3) NewBlockchain_Difficulty NewBlockchain_Chain NewBlockchain_Accounts)
  from CreateNewBlock_mined [OF assms(3)]
  have mined: "blk_Index b = int (length (bc_Chain ?bc))"
    "blk_PrevHash b = blk_Hash (last (bc_Chain ?bc))"
    "blk_Transactions b = getTransactionsForBlock ?bc"
    "blk_Miner b = miner" "blk_BlockReward b = 50"
    "Validate lib (NewProofOfWork b (bc_Difficulty ?bc)) = Some True"
    by simp_all
  have txs: "blk_Transactions b = [double_spend_first lib, double_spend_second lib]"
    using mined(3) by (simp add: getTransactionsForBlock_def fields(4))
  have v: "list_all (Transaction_IsValid lib) (blk_Transactions b)"
    unfolding txs double_spend_first_def double_spend_second_def
    using signed_transaction_valid [OF assms(1)] by simp
  have d: "0 \<le> bc_Difficulty ?bc" using assms(2) fields(1) by simp
  have "IsValidBlock lib ?bc (Some b) = Some True"
    unfolding IsValidBlock_decided [OF fields(2) d] using mined v by simp
  from AddBlock_accepted [OF this] obtain bc' where
    run: "AddBlock lib (Some b) ?bc = Some (None, bc')"
    and bal: "\<forall>a. account_get (bc_Accounts bc') a =
              account_get (bc_Accounts ?bc) a - total_debit (blk_Transactions b) a
                + total_credit (blk_Transactions b) a
                + (if a = blk_Miner b then blk_BlockReward b else 0)"
    by blast
  have "account_get (bc_Accounts bc') ''genesis_address'' < 0"
    unfolding bal [rule_format] txs fields(3) mined(4) mined(5)
    by (simp add: total_debit_def total_credit_def double_spend_first_def double_spend_second_def)
  then show ?thesis
    using run txs adm(1) adm(2) by (simp add: GetBalance_def)
qed


lemma sample_sha256_hex_nonempty: "sha256_hex sample_lib s \<noteq> []"
  by (simp add: sample_lib_def sample_sha256_hex_def Let_def)

lemma double_spend_block_mined:
  "CreateNewBlock sample_lib ''miner'' 1704067311 (double_spend_admitted sample_lib 1 50 1704067200)
     = Some (Some double_spend_block, None)"
proof -
  have "case CreateNewBlock sample_lib ''miner'' 1704067311
               (double_spend_admitted sample_lib 1 50 1704067200) of
          Some (Some b, None) \<Rightarrow> True | _ \<Rightarrow> False"
    by code_simp
  then show ?thesis
    by (auto simp: double_spend_block_def split: option.splits prod.splits)
qed

theorem AddBlock_commits_double_spend_witness:
  "blk_Transactions double_spend_block = [double_spend_first sample_lib, double_spend_second sample_lib]
   \<and> fst (the (AddBlock sample_lib (Some double_spend_block)
                  (double_spend_admitted sample_lib 1 50 1704067200))) = None
   \<and> fst (GetBalance
            (snd (the (AddBlock sample_lib (Some double_spend_block)
                         (double_spend_admitted sample_lib 1 50 1704067200))))
            ''genesis_address'') < 0"
  using AddBlock_commits_double_spend
          [of sample_lib 1 "''miner''" 1704067311 50 1704067200 double_spend_block,
           OF sample_sha256_hex_nonempty _ double_spend_block_mined]
  by auto

subsection \<open>The sum of all balances\<close>

lemma total_update:
  assumes "finite (dom m)"
  shows "(\<Sum>a \<in> dom (m(k \<mapsto> v)). the ((m(k \<mapsto> v)) a)) =
           (\<Sum>a \<in> dom m. the (m a)) - account_get m k + (v :: real)"
proof (cases "k \<in> dom m")
  case True
  then have dom: "dom (m(k \<mapsto> v)) = dom m" by auto
  have "(\<Sum>a \<in> dom m. the ((m(k \<mapsto> v)) a)) =
          the ((m(k \<mapsto> v)) k) + (\<Sum>a \<in> dom m - {k}. the ((m(k \<mapsto> v)) a))"
    using assms True by (rule sum.remove)
  moreover have "(\<Sum>a \<in> dom m - {k}. the ((m(k \<mapsto> v)) a)) = (\<Sum>a \<in> dom m - {k}. the (m a))"
    by (rule sum.cong) auto
  moreover have "(\<Sum>a \<in> dom m. the (m a)) = the (m k) + (\<Sum>a \<in> dom m - {k}. the (m a))"
    using assms True by (rule sum.remove)
  moreover have "account_get m k = the (m k)"
    using True by (auto simp: account_get_def)
  ultimately show ?thesis unfolding dom by simp
next
  case False
  then have dom: "dom (m(k \<mapsto> v)) = insert k (dom m)" by auto
  have "(\<Sum>a \<in> insert k (dom m). the ((m(k \<mapsto> v)) a)) =
          the ((m(k \<mapsto> v)) k) + (\<Sum>a \<in> dom m. the ((m(k \<mapsto> v)) a))"
    using assms False by (rule sum.insert)
  moreover have "(\<Sum>a \<in> dom m. the ((m(k \<mapsto> v)) a)) = (\<Sum>a \<in> dom m. the (m a))"
    using False by (intro sum.cong) auto
  moreover have "account_get m k = 0"
    using False by (auto simp: account_get_def split: option.splits)
  ultimately show ?thesis unfolding dom by simp
qed

lemma processTransaction_total:
  assumes "finite (dom (bc_Accounts bc))"
  shows "calculateTotalBalance (processTransaction bc tx) = calculateTotalBalance bc - tx_Fee tx"
    and "finite (dom (bc_Accounts (processTransaction bc tx)))"
proof -
  let ?m1 = "(bc_Accounts bc)
      (tx_From tx \<mapsto> account_get (bc_Accounts bc) (tx_From tx) - (tx_Amount tx + tx_Fee tx))"
  have f1: "finite (dom ?m1)" using assms by simp
  have "calculateTotalBalance (processTransaction bc tx) =
      (\<Sum>a \<in> dom ?m1. the (?m1 a)) - account_get ?m1 (tx_To tx)
         + (account_get ?m1 (tx_To tx) + tx_Amount tx)"
    unfolding calculateTotalBalance_def processTransaction_def Let_def
    using total_update [OF f1] by simp
  also have "(\<Sum>a \<in> dom ?m1. the (?m1 a)) =
      calculateTotalBalance bc - account_get (bc_Accounts bc) (tx_From tx)
        + (account_get (bc_Accounts bc) (tx_From tx) - (tx_Amount tx + tx_Fee tx))"
    unfolding calculateTotalBalance_def by (rule total_update [OF assms])
  finally show "calculateTotalBalance (processTransaction bc tx) = calculateTotalBalance bc - tx_Fee tx"
    by simp
  show "finite (dom (bc_Accounts (processTransaction bc tx)))"
    using assms by (simp add: dom_processTransaction)
qed

lemma foldl_processTransaction_total:
  assumes "finite (dom (bc_Accounts bc))"
  shows "calculateTotalBalance (foldl processTransaction bc txs) = calculateTotalBalance bc - total_fees txs"
  using assms
proof (induction txs arbitrary: bc)
  case Nil
  show ?case by (simp add: total_fees_def)
next
  case (Cons tx txs)
  have "calculateTotalBalance (foldl processTransaction (processTransaction bc tx) txs) =
          calculateTotalBalance (processTransaction bc tx) - total_fees txs"
    by (rule Cons.IH) (rule processTransaction_total(2) [OF Cons.prems])
  then show ?case
    by (simp add: processTransaction_total(1) [OF Cons.prems] total_fees_def)
qed

lemma AddBlock_total:
  assumes "AddBlock lib blk bc = Some (None, bc')" and "finite (dom (bc_Accounts bc))"
  shows "\<exists>b. blk = Some b \<and> bc_Chain bc' = bc_Chain bc @ [b]
     \<and> calculateTotalBalance bc' =
         calculateTotalBalance bc + blk_BlockReward b - total_fees (blk_Transactions b)
     \<and> finite (dom (bc_Accounts bc'))"
proof -
  from assms(1) obtain b where b: "blk = Some b"
    by (cases blk) (auto simp: AddBlock_def split: option.splits bool.splits)
  let ?bc1 = "foldl processTransaction bc (blk_Transactions b)"
  have valid: "IsValidBlock lib bc (Some b) = Some True"
    using assms(1) b by (auto simp: AddBlock_def split: option.splits bool.splits)
  have acc: "bc_Accounts bc' = (bc_Accounts ?bc1)
      (blk_Miner b \<mapsto> account_get (bc_Accounts ?bc1) (blk_Miner b) + blk_BlockReward b)"
    and chain: "bc_Chain bc' = bc_Chain bc @ [b]"
    using assms(1) b valid by (auto simp: AddBlock_def Let_def removeProcessedTransactions_def)
  have f1: "finite (dom (bc_Accounts ?bc1))"
    using assms(2) by (simp add: dom_foldl_processTransaction)
  have "calculateTotalBalance bc' =
      calculateTotalBalance ?bc1 - account_get (bc_Accounts ?bc1) (blk_Miner b)
        + (account_get (bc_Accounts ?bc1) (blk_Miner b) + blk_BlockReward b)"
    unfolding calculateTotalBalance_def acc by (rule total_update [OF f1])
  then have "calculateTotalBalance bc' =
      calculateTotalBalance bc + blk_BlockReward b - total_fees (blk_Transactions b)"
    by (simp add: foldl_processTransaction_total [OF assms(2)])
  moreover have "finite (dom (bc_Accounts bc'))"
    unfolding acc using f1 by simp
  ultimately show ?thesis using b chain by simp
qed

lemma AddBlock_failed_same:
  "AddBlock lib blk bc = Some (Some e, bc') \<Longrightarrow> bc' = bc"
  by (auto simp: AddBlock_def Let_def split: option.splits bool.splits)

lemma net_minted_append: "net_minted (bs @ [b]) = net_minted bs + (blk_BlockReward b - total_fees (blk_Transactions b))"
  by (simp add: net_minted_def)

lemma reachable_total:
  "reachable lib bc \<Longrightarrow>
     finite (dom (bc_Accounts bc)) \<and> bc_Chain bc \<noteq> []
     \<and> calculateTotalBalance bc = 1000000 + net_minted (tl (bc_Chain bc))"
proof (induction rule: reachable.induct)
  case (reachable_new difficulty blockReward now)
  have fin: "finite (dom (bc_Accounts (NewBlockchain lib difficulty blockReward now)))"
    unfolding NewBlockchain_Accounts by simp
  have tot: "calculateTotalBalance (NewBlockchain lib difficulty blockReward now) = 1000000"
    unfolding calculateTotalBalance_def NewBlockchain_Accounts by simp
  show ?case
    using fin tot by (simp add: NewBlockchain_Chain net_minted_def)
next
  case (reachable_AddBlock bc blk err bc')
  show ?case
  proof (cases err)
    case (Some e)
    then have "bc' = bc" using reachable_AddBlock.hyps(2) by (simp add: AddBlock_failed_same)
    then show ?thesis using reachable_AddBlock.IH by simp
  next
    case None
    from AddBlock_total [OF reachable_AddBlock.hyps(2) [unfolded None]] reachable_AddBlock.IH
    obtain b where "bc_Chain bc' = bc_Chain bc @ [b]"
      "calculateTotalBalance bc' =
         calculateTotalBalance bc + blk_BlockReward b - total_fees (blk_Transactions b)"
      "finite (dom (bc_Accounts bc'))"
      by blast
    then show ?thesis using reachable_AddBlock.IH by (simp add: net_minted_append)
  qed
next
  case (reachable_AddTransaction bc tx err bc')
  have "bc_Accounts bc' = bc_Accounts bc" "bc_Chain bc' = bc_Chain bc"
    using reachable_AddTransaction.hyps(2) by (auto simp: AddTransaction_def split: if_splits)
  then show ?case using reachable_AddTransaction.IH by (simp add: calculateTotalBalance_def)
qed

text \<open>
  Claim C2 fails on the code. What holds in every reachable state instead: the sum of all
  balances is the genesis allocation of 1000000, plus the reward of every block committed
  after the genesis block, minus the fees of all transactions in these blocks. A fee is
  taken from the sender and credited to nobody, so each fee removes value from the ledger.
\<close>

theorem total_balance_loses_fees:
  assumes "reachable lib bc"
  shows "calculateTotalBalance bc = 1000000 + net_minted (tl (bc_Chain bc))
     \<and> net_minted (tl (bc_Chain bc)) =
          sum_list (map blk_BlockReward (tl (bc_Chain bc)))
            - sum_list (map (\<lambda>b. total_fees (blk_Transactions b)) (tl (bc_Chain bc)))"
proof -
  have "net_minted bs = sum_list (map blk_BlockReward bs)
          - sum_list (map (\<lambda>b. total_fees (blk_Transactions b)) bs)" for bs
    by (induction bs) (simp_all add: net_minted_def)
  then show ?thesis using reachable_total [OF assms] by simp
qed

theorem total_balance_loses_fees_witness:
  "length (bc_Chain sample_chain_committed) = 2
   \<and> blk_BlockReward sample_block = 50
   \<and> calculateTotalBalance sample_chain_committed = 1000049"
proof -
  have "tl (bc_Chain sample_chain_committed) = [sample_block]"
    by (simp add: sample_chain_committed_fields sample_chain_def NewBlockchain_Chain)
  then show ?thesis
    using total_balance_loses_fees [OF sample_chain_committed_reachable]
    by (simp add: net_minted_def total_fees_def sample_block_fields sample_tx_fields
        sample_chain_committed_fields sample_chain_length)
qed

subsection \<open>Relaying a new block\<close>

lemma set_BroadcastMessage:
  "set (BroadcastMessage n message) =
     {(peer_ID p, message) | key p. (key, p) \<in> set (node_peers n) \<and> peer_Connected p}"
  by (auto simp: BroadcastMessage_def)

lemma sample_node_broadcast:
  "BroadcastMessage sample_node message = [(''peer_1'', message), (''peer_2'', message)]"
  by (simp add: BroadcastMessage_def sample_node_def sample_sender_def)

text \<open>
  Claim C8 fails on the code. Whatever bytes a peer sends, a new-block message carrying a
  valid block included, \<^verbatim>\<open>Node.handleMessage\<close> leaves the node and its chain as they
  are and writes one answer, the bytes behind the prefix \<open>Echo: \<close>, to the sending peer:
  the block is neither validated nor appended nor passed on. And \<^verbatim>\<open>BroadcastMessage\<close>,
  which the new-block handler names for the relay "to other peers", writes its message to
  exactly the connected peers of the registry, so also to the peer a message came from
  whenever that peer is registered and connected.
\<close>

theorem handleMessage_echoes_and_broadcast_reaches_sender:
  "handleMessage n peer data = (n, [(peer_ID peer, ''Echo: '' @ data)])
   \<and> set (BroadcastMessage n message) =
        {(peer_ID p, message) | key p. (key, p) \<in> set (node_peers n) \<and> peer_Connected p}
   \<and> ((key, peer) \<in> set (node_peers n) \<and> peer_Connected peer
        \<longrightarrow> (peer_ID peer, message) \<in> set (BroadcastMessage n message))"
proof (intro conjI impI)
  show "handleMessage n peer data = (n, [(peer_ID peer, ''Echo: '' @ data)])"
    by (simp add: handleMessage_def)
  show "set (BroadcastMessage n message) =
        {(peer_ID p, message) | key p. (key, p) \<in> set (node_peers n) \<and> peer_Connected p}"
    by (rule set_BroadcastMessage)
  assume "(key, peer) \<in> set (node_peers n) \<and> peer_Connected peer"
  then show "(peer_ID peer, message) \<in> set (BroadcastMessage n message)"
    unfolding set_BroadcastMessage by blast
qed

theorem handleMessage_echoes_and_broadcast_reaches_sender_witness:
  "handleMessage sample_node sample_sender ''new-block-bytes''
     = (sample_node, [(''peer_1'', ''Echo: new-block-bytes'')])
   \<and> bc_Chain (node_blockchain (fst (handleMessage sample_node sample_sender ''new-block-bytes'')))
     = bc_Chain sample_chain
   \<and> (''peer_1'', ''new-block-bytes'') \<in> set (BroadcastMessage sample_node ''new-block-bytes'')
   \<and> BroadcastMessage sample_node ''new-block-bytes''
     = [(''peer_1'', ''new-block-bytes''), (''peer_2'', ''new-block-bytes'')]"
proof -
  have reg: "(''peer_1'', sample_sender) \<in> set (node_peers sample_node) \<and> peer_Connected sample_sender"
    by (simp add: sample_node_def sample_sender_def)
  have id: "peer_ID sample_sender = ''peer_1''"
    by (simp add: sample_sender_def)
  have chain: "bc_Chain (node_blockchain sample_node) = bc_Chain sample_chain"
    by (simp add: sample_node_def sample_chain_admitted_fields)
  note T = handleMessage_echoes_and_broadcast_reaches_sender
             [of sample_node sample_sender "''new-block-bytes''" "''new-block-bytes''" "''peer_1''"]
  have echo: "handleMessage sample_node sample_sender ''new-block-bytes''
     = (sample_node, [(''peer_1'', ''Echo: new-block-bytes'')])"
    using T id by simp
  have returned: "(''peer_1'', ''new-block-bytes'') \<in> set (BroadcastMessage sample_node ''new-block-bytes'')"
    using T reg id by metis
  show ?thesis
    using echo returned chain by (simp add: sample_node_broadcast)
qed

end
